theory Spec2Isabelle
  imports Main "HOL-Library.Sublist" "HOL-Library.AList"
begin

section \<open>Data model of \<open>lib/argument_parser.js\<close>\<close>

text \<open>
  JavaScript values as far as the parser looks at them. Numbers are integers here
  (floating-point results of a converter are outside the model); \<open>JObj\<close> is an opaque
  object.
\<close>

datatype jsval =
    JUndefined
  | JNull
  | JBool bool
  | JNum int
  | JStr string
  | JArr "jsval list"
  | JObj nat

text \<open>
  \<open>action.nargs\<close>: \<open>undefined\<close>/\<open>null\<close>, one of the string constants of
  \<open>./const\<close> (\<open>$$.OPTIONAL\<close>, ...), or a number.
\<close>

datatype nargs =
    NargsUnset
  | OPTIONAL
  | ZERO_OR_MORE
  | ONE_OR_MORE
  | REMAINDER
  | PARSER
  | NargsCount nat

text \<open>
  \<open>action.choices\<close> may be an array, a string or a plain object. \<open>_checkValue\<close>
  asks three things of it, which are the three fields: whether \<open>choices[value]\<close> is
  truthy, whether \<open>choices.indexOf\<close> is a function, and whether
  \<open>choices.indexOf(value)\<close> finds the value.
\<close>

record choice_set =
  prop_truthy :: "jsval \<Rightarrow> bool"
  indexOf_isFunction :: bool
  indexOf_finds :: "jsval \<Rightarrow> bool"

text \<open>
  An Action object. The Action classes are not part of \<open>argument_parser.js\<close>, so what
  the parser reads from an Action is a field:
  \<^item> \<open>ident\<close> is the object's identity (\<open>seenActions\<close> is searched by identity);
  \<^item> \<open>typeFunction\<close> is what \<open>_registryGet('type', action.type, action.type)\<close> returns:
    \<open>None\<close> when it is not a function, otherwise the converter, which yields \<open>None\<close>
    where it throws;
  \<^item> \<open>differsFromDefault v\<close> is the outcome of \<open>v !== action.default\<close>, a comparison by
    reference;
  \<^item> \<open>call\<close> is \<open>action.call(parser, namespace, values, optionString)\<close>: the updated
    namespace, or the message of what it threw.
\<close>

record 'ns action =
  ident :: nat
  optionStrings :: "string list"
  dest :: string
  nargs :: nargs
  typeFunction :: "(string \<Rightarrow> jsval option) option"
  defaultValue :: jsval
  constantValue :: jsval
  required :: bool
  choices :: "choice_set option"
  differsFromDefault :: "jsval \<Rightarrow> bool"
  call :: "'ns \<Rightarrow> jsval \<Rightarrow> string option \<Rightarrow> string + 'ns"

text \<open>
  Modelled from the spec: \<open>Action.isOptional\<close> and \<open>Action.isPositional\<close> are methods of
  the Action class, which is not in \<open>argument_parser.js\<close>. The spec's data model has
  "names: ordered set of string (option strings, empty for positionals)".
\<close>

definition isPositional :: "'ns action \<Rightarrow> bool" where
  "isPositional a = (optionStrings a = [])"

definition isOptional :: "'ns action \<Rightarrow> bool" where
  "isOptional a = (\<not> isPositional a)"

text \<open>
  What the parser reads from itself (\<open>this\<close>): the fields the ActionContainer
  constructor sets. \<open>optionStringActions\<close> is the object \<open>_optionStringActions\<close> as the
  list of its own properties in enumeration order, which is what \<open>for ... in\<close> and
  \<open>_.keys\<close> go through; \<open>regexpNegativeNumber s\<close> is whether
  \<open>s.match(this._regexpNegativeNumber)\<close> is truthy; \<open>hasNegativeNumberOptionals\<close> is the
  truthiness of the field of that name; \<open>SUPPRESS\<close> is \<open>$$.SUPPRESS\<close>.
\<close>

record 'ns parser =
  prefixChars :: string
  parserActions :: "'ns action list"
  optionStringActions :: "(string \<times> 'ns action) list"
  regexpNegativeNumber :: "string \<Rightarrow> bool"
  hasNegativeNumberOptionals :: bool
  SUPPRESS :: jsval

text \<open>
  Everything the parser throws, by throw site. Actions are named by their \<open>ident\<close>.
  \<open>JsTypeError\<close> is the runtime's own error on reading a property of \<open>undefined\<close> or
  calling what is not a function;
  \<open>RegExpSyntaxError\<close> is \<open>new RegExp\<close> refusing a pattern.
  \<open>IgnoredExplicitArgument a (Some e)\<close> is the throw at line 423, whose message is
  formatted with \<open>%r\<close>, and \<open>IgnoredExplicitArgument a None\<close> the one at line 408, whose
  message is not formatted.
\<close>

datatype error =
    AmbiguousOption string "string list"
  | UnexpectedOptionString string
  | ExpectedOneArgument nat
  | ExpectedAtMostOneArgument nat
  | ExpectedAtLeastOneArgument nat
  | ExpectedCountArguments nat nargs
  | IgnoredExplicitArgument nat "string option"
  | NotAllowedWithArgument nat nat
  | NotCallable nat
  | InvalidTypeValue nat string
  | InvalidChoice nat jsval
  | TooFewArguments
  | ArgumentRequired nat
  | LengthShouldBePositive
  | ActionCallError string
  | JsTypeError
  | RegExpSyntaxError string

text \<open>
  \<open>_optionStringActions\<close> is a plain object (the ActionContainer constructor, which is
  not in \<open>argument_parser.js\<close>, sets it to \<open>{}\<close>), so a lookup
  \<open>_optionStringActions[s]\<close> finds an own property (an Action, \<open>Own\<close>) and otherwise
  what every object inherits from \<open>Object.prototype\<close> under the names of
  \<open>Object_prototype\<close> (\<open>Inherited\<close>: functions, and the prototype itself for
  \<open>__proto__\<close>). All of these are truthy; none of the inherited ones is an Action.
\<close>

datatype 'a property = Own 'a | Inherited

definition Object_prototype :: "string list" where
  "Object_prototype =
     [''constructor'', ''toString'', ''toLocaleString'', ''valueOf'', ''hasOwnProperty'',
      ''isPrototypeOf'', ''propertyIsEnumerable'', ''__proto__'', ''__defineGetter__'',
      ''__defineSetter__'', ''__lookupGetter__'', ''__lookupSetter__'']"

definition optionStringActions_get :: "'ns parser \<Rightarrow> string \<Rightarrow> 'ns action property option" where
  "optionStringActions_get P s =
     (case map_of (optionStringActions P) s of
        Some action \<Rightarrow> Some (Own action)
      | None \<Rightarrow> if s \<in> set Object_prototype then Some Inherited else None)"

text \<open>
  An option tuple \<open>[action, optionString, explicitArg]\<close>; the first component is \<open>None\<close>
  for \<open>null\<close>.
\<close>

type_synonym 'ns option_tuple = "'ns action property option \<times> string \<times> string option"

section \<open>JavaScript strings and arrays\<close>

text \<open>\<open>xs[i]\<close>: \<open>undefined\<close> (\<open>None\<close>) out of range.\<close>

definition at :: "'a list \<Rightarrow> nat \<Rightarrow> 'a option" where
  "at xs i = (if i < length xs then Some (xs ! i) else None)"

text \<open>
  \<open>chars.indexOf(c) >= 0\<close> where \<open>c\<close> is a character of a string or \<open>undefined\<close>;
  \<open>indexOf\<close> turns \<open>undefined\<close> into the text \<open>undefined\<close> and searches for it.
\<close>

definition indexOf_found :: "string \<Rightarrow> char option \<Rightarrow> bool" where
  "indexOf_found chars c =
     (case c of Some x \<Rightarrow> x \<in> set chars | None \<Rightarrow> sublist ''undefined'' chars)"

text \<open>\<open>s.split(sep)\<close> for a separator of one character.\<close>

fun split_on :: "char \<Rightarrow> string \<Rightarrow> string list" where
  "split_on sep [] = [[]]"
| "split_on sep (c # cs) =
     (if c = sep then [] # split_on sep cs
      else (case split_on sep cs of
              [] \<Rightarrow> [[c]]
            | p # ps \<Rightarrow> (c # p) # ps))"

text \<open>\<open>k.substr(0, p.length) === p\<close>\<close>

definition starts_with :: "string \<Rightarrow> string \<Rightarrow> bool" where
  "starts_with k p = (take (length p) k = p)"

text \<open>
  \<open>xs.slice(i, j)\<close> for indices that are not negative: it stops at the end of \<open>xs\<close> and
  is empty when \<open>j \<le> i\<close>. \<open>s.substr(i)\<close> and \<open>xs.slice(i)\<close> are \<open>drop i\<close>.
\<close>

definition slice :: "'a list \<Rightarrow> nat \<Rightarrow> nat \<Rightarrow> 'a list" where
  "slice xs i j = take (j - i) (drop i xs)"

section \<open>Option Resolver: \<open>_getOptionTuples\<close> and \<open>_parseOptional\<close>\<close>

definition getOptionTuples :: "'ns parser \<Rightarrow> string \<Rightarrow> error + 'ns option_tuple list" where
  "getOptionTuples P optionString =
    (let chars = prefixChars P in
     if indexOf_found chars (at optionString 0) \<and> indexOf_found chars (at optionString 1) then
       (let (optionPrefix, argExplicit) =
              (if CHR ''='' \<in> set optionString then
                 (let optionStringSplit = take 1 (split_on CHR ''='' optionString)
                  in (at optionStringSplit 0, at optionStringSplit 1))
               else (Some optionString, None))
        in case optionPrefix of
             None \<Rightarrow> Inl JsTypeError
           | Some optionPrefix \<Rightarrow>
               Inr (concat (map (\<lambda>(actionOptionString, action).
                      if starts_with actionOptionString optionPrefix
                      then [(Some (Own action), actionOptionString, argExplicit)] else [])
                    (optionStringActions P))))
     else if indexOf_found chars (at optionString 0) \<and> \<not> indexOf_found chars (at optionString 1) then
       (let optionPrefix = optionString;
            argExplicit = None;
            optionPrefixShort = take 2 optionString;
            argExplicitShort = drop 2 optionString
        in Inr (concat (map (\<lambda>(actionOptionString, action).
                  if actionOptionString = optionPrefixShort
                  then [(Some (Own action), actionOptionString, Some argExplicitShort)]
                  else if starts_with actionOptionString optionPrefix
                  then [(Some (Own action), actionOptionString, argExplicit)] else [])
                (optionStringActions P))))
     else Inl (UnexpectedOptionString optionString))"

text \<open>
  The result is \<open>Inr None\<close> for \<open>return null\<close> (the token is an argument), \<open>Inr (Some t)\<close>
  for an option tuple, and \<open>Inl\<close> for \<open>this.error(...)\<close>, which throws or exits.
\<close>

definition parseOptional :: "'ns parser \<Rightarrow> string \<Rightarrow> error + 'ns option_tuple option" where
  "parseOptional P argString =
    (if argString = [] then Inr None
     else if \<not> indexOf_found (prefixChars P) (at argString 0) then Inr None
     else
      (case optionStringActions_get P argString of
         Some action \<Rightarrow> Inr (Some (Some action, argString, None))
       | None \<Rightarrow>
          (if length argString = 1 then Inr None
           else
            (case (if CHR ''='' \<in> set argString then
                     (let argStringSplit = split_on CHR ''='' argString;
                          optionString = at argStringSplit 0;
                          argExplicit = at argStringSplit 1
                      in (case optionString of
                            None \<Rightarrow> None
                          | Some optionString \<Rightarrow>
                             (case optionStringActions_get P optionString of
                                None \<Rightarrow> None
                              | Some action \<Rightarrow> Some (Some action, optionString, argExplicit))))
                   else None) of
               Some tuple \<Rightarrow> Inr (Some tuple)
             | None \<Rightarrow>
                (case getOptionTuples P argString of
                   Inl e \<Rightarrow> Inl e
                 | Inr optionTuples \<Rightarrow>
                    (case optionTuples of
                       t1 # t2 # ts \<Rightarrow>
                         Inl (AmbiguousOption argString
                                (map (\<lambda>optionTuple. fst (snd optionTuple)) optionTuples))
                     | [t] \<Rightarrow> Inr (Some t)
                     | [] \<Rightarrow>
                         (if regexpNegativeNumber P argString \<and> \<not> hasNegativeNumberOptionals P
                          then Inr None
                          else if CHR '' '' \<in> set argString then Inr None
                          else Inr (Some (None, argString, None)))))))))"

section \<open>Token Classifier (the \<open>forEach\<close> at the head of \<open>_parseKnownArgs\<close>)\<close>

text \<open>
  The callback runs once for every token, with the token's index; \<open>n\<close> is
  \<open>argStrings.length\<close>. On \<open>--\<close> it pushes \<open>-\<close> and then runs
  \<open>while (argStringIndex < argStrings.length)\<close>, which pushes one \<open>A\<close> for each index from
  the callback's own index to \<open>n - 1\<close>; the increments are to the callback's parameter,
  so \<open>forEach\<close> goes on to the next token all the same.
\<close>

fun classifyEach ::
  "'ns parser \<Rightarrow> nat \<Rightarrow> nat \<Rightarrow> string list \<Rightarrow> (nat \<times> 'ns option_tuple) list \<times> string
     \<Rightarrow> error + (nat \<times> 'ns option_tuple) list \<times> string" where
  "classifyEach P n argStringIndex [] acc = Inr acc"
| "classifyEach P n argStringIndex (argString # rest) (optionStringIndices, parts) =
    (if argString = ''--'' then
       classifyEach P n (argStringIndex + 1) rest
         (optionStringIndices, parts @ ''-'' @ replicate (n - argStringIndex) CHR ''A'')
     else
       (case parseOptional P argString of
          Inl e \<Rightarrow> Inl e
        | Inr None \<Rightarrow>
            classifyEach P n (argStringIndex + 1) rest (optionStringIndices, parts @ ''A'')
        | Inr (Some optionTuple) \<Rightarrow>
            classifyEach P n (argStringIndex + 1) rest
              (AList.update argStringIndex optionTuple optionStringIndices, parts @ ''O'')))"

definition classify ::
  "'ns parser \<Rightarrow> string list \<Rightarrow> error + (nat \<times> 'ns option_tuple) list \<times> string" where
  "classify P argStrings = classifyEach P (length argStrings) 0 argStrings ([], [])"


section \<open>Arity Matcher\<close>

subsection \<open>The regular expressions of \<open>_getNargsPattern\<close>\<close>

text \<open>
  A compiled pattern is a list of capture groups; a group is a list of items; an item is
  a character class (a single character is a class of one) with \<open>*\<close>, \<open>?\<close> or no
  quantifier.
\<close>

datatype quant = QOne | QOpt | QStar

type_synonym item = "string \<times> quant"

text \<open>
  \<open>new RegExp(pattern)\<close> for the patterns this file builds: groups \<open>( ... )\<close> in a row,
  holding characters and bracket classes \<open>[...]\<close>, each with an optional \<open>*\<close> or \<open>?\<close>.
  \<open>rx_scan\<close> reads the pattern left to right; \<open>cur\<close> is the group that is open and
  \<open>cls\<close> the class that is open. \<open>None\<close> is a syntax error or a pattern outside these
  (a range or a negation in a class, alternation, a character outside a group), which no
  call site builds.
\<close>

fun rx_scan ::
  "string \<Rightarrow> item list list \<Rightarrow> item list option \<Rightarrow> string option \<Rightarrow> item list list option" where
  "rx_scan [] groups cur cls = (if cur = None \<and> cls = None then Some groups else None)"
| "rx_scan (c # cs) groups cur cls =
    (case cur of
       None \<Rightarrow> (if c = CHR ''('' \<and> cls = None then rx_scan cs groups (Some []) None else None)
     | Some items \<Rightarrow>
        (case cls of
           Some chars \<Rightarrow>
             (if c = CHR '']'' then
                (if CHR ''-'' \<in> set (butlast (tl chars)) \<or> take 1 chars = ''^'' then None
                 else rx_scan cs groups (Some (items @ [(chars, QOne)])) None)
              else if c = CHR ''['' \<or> c = CHR 0x5C then None
              else rx_scan cs groups cur (Some (chars @ [c])))
         | None \<Rightarrow>
             (if c = CHR '')'' then rx_scan cs (groups @ [items]) None None
              else if c = CHR ''['' then rx_scan cs groups cur (Some [])
              else if c = CHR ''*'' \<or> c = CHR ''?'' then
                (case rev items of
                   (chars, QOne) # earlier \<Rightarrow>
                     rx_scan cs groups
                       (Some (rev earlier @ [(chars, if c = CHR ''*'' then QStar else QOpt)])) None
                 | _ \<Rightarrow> None)
              else if c \<in> set ''(]|.+^${}'' \<or> c = CHR 0x5C then None
              else rx_scan cs groups (Some (items @ [([c], QOne)])) None)))"

definition RegExp :: "string \<Rightarrow> item list list option" where
  "RegExp pattern = rx_scan pattern [] None None"

text \<open>
  Matching backtracks as the JavaScript engine does: every quantifier first takes as much
  as it can and gives back one character at a time. \<open>item_counts\<close> lists, in the
  order they are tried, how many characters an item may take at the head of \<open>s\<close>;
  \<open>group_counts\<close> does so for a group, \<open>groups_all\<close> for the whole pattern (one length
  for each capture group), so that the head of \<open>groups_all\<close> is the match the engine
  reports at this position.
\<close>

fun item_counts :: "item \<Rightarrow> string \<Rightarrow> nat list" where
  "item_counts (chars, QOne) s =
     (case s of [] \<Rightarrow> [] | c # cs \<Rightarrow> if c \<in> set chars then [1] else [])"
| "item_counts (chars, QOpt) s =
     (case s of [] \<Rightarrow> [0] | c # cs \<Rightarrow> if c \<in> set chars then [1, 0] else [0])"
| "item_counts (chars, QStar) s =
     rev [0 ..< Suc (length (takeWhile (\<lambda>c. c \<in> set chars) s))]"

fun group_counts :: "item list \<Rightarrow> string \<Rightarrow> nat list" where
  "group_counts [] s = [0]"
| "group_counts (i # items) s =
     concat (map (\<lambda>n. map (\<lambda>m. n + m) (group_counts items (drop n s))) (item_counts i s))"

fun groups_all :: "item list list \<Rightarrow> string \<Rightarrow> nat list list" where
  "groups_all [] s = [[]]"
| "groups_all (g # gs) s =
     concat (map (\<lambda>n. map (\<lambda>ns. n # ns) (groups_all gs (drop n s))) (group_counts g s))"

fun cut :: "string \<Rightarrow> nat list \<Rightarrow> string list" where
  "cut s [] = []"
| "cut s (n # ns) = take n s # cut (drop n s) ns"

text \<open>
  \<open>s.match(re)\<close> for a pattern without the global flag: the leftmost position where the
  pattern matches, tried from position 0 to the end of \<open>s\<close>; nothing anchors the pattern
  to position 0. The result is the array of the whole match followed by the capture
  groups, or \<open>null\<close>.
\<close>

fun regexp_search :: "item list list \<Rightarrow> string \<Rightarrow> string list option" where
  "regexp_search r [] =
     (case groups_all r [] of [] \<Rightarrow> None | ns # _ \<Rightarrow> Some (take (sum_list ns) [] # cut [] ns))"
| "regexp_search r (c # cs) =
     (case groups_all r (c # cs) of
        [] \<Rightarrow> regexp_search r cs
      | ns # _ \<Rightarrow> Some (take (sum_list ns) (c # cs) # cut (c # cs) ns))"

definition String_match :: "string \<Rightarrow> string \<Rightarrow> error + string list option" where
  "String_match s pattern =
     (case RegExp pattern of
        None \<Rightarrow> Inl (RegExpSyntaxError pattern)
      | Some r \<Rightarrow> Inr (regexp_search r s))"

subsection \<open>\<open>_getNargsPattern\<close>, \<open>_matchArgument\<close>, \<open>_matchArgumentsPartial\<close>\<close>

text \<open>\<open>s.replace(/-\*/g, '')\<close> and \<open>s.replace(/-/g, '')\<close>\<close>

fun replace_dash_star :: "string \<Rightarrow> string" where
  "replace_dash_star (a # b # cs) =
     (if a = CHR ''-'' \<and> b = CHR ''*'' then replace_dash_star cs
      else a # replace_dash_star (b # cs))"
| "replace_dash_star cs = cs"

definition replace_dash :: "string \<Rightarrow> string" where
  "replace_dash s = filter (\<lambda>c. c \<noteq> CHR ''-'') s"

definition getNargsPattern :: "'ns action \<Rightarrow> string" where
  "getNargsPattern action =
    (let regexpNargs =
       (case nargs action of
          NargsUnset \<Rightarrow> ''(-*A-*)''
        | OPTIONAL \<Rightarrow> ''(-*A?-*)''
        | ZERO_OR_MORE \<Rightarrow> ''(-*[A-]*)''
        | ONE_OR_MORE \<Rightarrow> ''(-*A[A-]*)''
        | REMAINDER \<Rightarrow> ''([-AO]*)''
        | PARSER \<Rightarrow> ''(-*A[-AO]*)''
        | NargsCount n \<Rightarrow> ''(-*'' @ concat (replicate n ''-*A'') @ ''-*)'')
     in if isOptional action then replace_dash (replace_dash_star regexpNargs)
        else regexpNargs)"

definition matchArgument :: "'ns action \<Rightarrow> string \<Rightarrow> error + nat" where
  "matchArgument action regexpArgStrings =
    (case String_match regexpArgStrings (getNargsPattern action) of
       Inl e \<Rightarrow> Inl e
     | Inr None \<Rightarrow>
         Inl (case nargs action of
                NargsUnset \<Rightarrow> ExpectedOneArgument (ident action)
              | OPTIONAL \<Rightarrow> ExpectedAtMostOneArgument (ident action)
              | ONE_OR_MORE \<Rightarrow> ExpectedAtLeastOneArgument (ident action)
              | _ \<Rightarrow> ExpectedCountArguments (ident action) (nargs action))
     | Inr (Some matches) \<Rightarrow>
         (case at matches 1 of
            None \<Rightarrow> Inl JsTypeError
          | Some firstGroup \<Rightarrow> Inr (length firstGroup)))"

text \<open>
  The loop \<open>for (i = actions.length; i > 0; i -= 1)\<close>: \<open>i\<close> is the number of leading
  actions whose patterns are concatenated.
\<close>

fun matchArgumentsPartial_loop :: "nat \<Rightarrow> 'ns action list \<Rightarrow> string \<Rightarrow> error + nat list" where
  "matchArgumentsPartial_loop 0 actions regexpArgStrings = Inr []"
| "matchArgumentsPartial_loop (Suc i) actions regexpArgStrings =
    (let actionSlice = take (Suc i) actions;
         pattern = concat (map getNargsPattern actionSlice)
     in case String_match regexpArgStrings pattern of
          Inl e \<Rightarrow> Inl e
        | Inr None \<Rightarrow> matchArgumentsPartial_loop i actions regexpArgStrings
        | Inr (Some matches) \<Rightarrow>
            (if length matches > 0 then Inr (map length (drop 1 matches))
             else matchArgumentsPartial_loop i actions regexpArgStrings))"

definition matchArgumentsPartial :: "'ns action list \<Rightarrow> string \<Rightarrow> error + nat list" where
  "matchArgumentsPartial actions regexpArgStrings =
     matchArgumentsPartial_loop (length actions) actions regexpArgStrings"

section \<open>Value Converter and Validator\<close>

text \<open>Truthiness of a value, as \<open>!!v\<close> and \<open>v || w\<close> see it.\<close>

fun truthy :: "jsval \<Rightarrow> bool" where
  "truthy JUndefined = False"
| "truthy JNull = False"
| "truthy (JBool b) = b"
| "truthy (JNum n) = (n \<noteq> 0)"
| "truthy (JStr s) = (s \<noteq> [])"
| "truthy (JArr vs) = True"
| "truthy (JObj n) = True"

text \<open>\<open>xs.map(f)\<close> and \<open>xs.forEach(f)\<close> where \<open>f\<close> may throw: the first throw ends the loop.\<close>

fun mapE :: "('a \<Rightarrow> error + 'b) \<Rightarrow> 'a list \<Rightarrow> error + 'b list" where
  "mapE f [] = Inr []"
| "mapE f (x # xs) =
     (case f x of
        Inl e \<Rightarrow> Inl e
      | Inr y \<Rightarrow> (case mapE f xs of Inl e \<Rightarrow> Inl e | Inr ys \<Rightarrow> Inr (y # ys)))"

definition getValue :: "'ns action \<Rightarrow> string \<Rightarrow> error + jsval" where
  "getValue action argString =
     (case typeFunction action of
        None \<Rightarrow> Inl (NotCallable (ident action))
      | Some f \<Rightarrow>
          (case f argString of
             None \<Rightarrow> Inl (InvalidTypeValue (ident action) argString)
           | Some result \<Rightarrow> Inr result))"

definition checkValue :: "'ns action \<Rightarrow> jsval \<Rightarrow> error + unit" where
  "checkValue action v =
     (case choices action of
        None \<Rightarrow> Inr ()
      | Some cs \<Rightarrow>
          if \<not> prop_truthy cs v \<and> (indexOf_isFunction cs \<and> \<not> indexOf_finds cs v)
          then Inl (InvalidChoice (ident action) v)
          else Inr ())"

text \<open>\<open>!action.nargs\<close>: \<open>undefined\<close>, \<open>null\<close> and the number 0 are falsy.\<close>

definition nargs_falsy :: "nargs \<Rightarrow> bool" where
  "nargs_falsy n = (n = NargsUnset \<or> n = NargsCount 0)"

definition getValues :: "'ns action \<Rightarrow> string list \<Rightarrow> error + jsval" where
  "getValues action argStrings0 =
    (let argStrings =
           (if nargs action \<noteq> PARSER \<and> nargs action \<noteq> REMAINDER
            then filter (\<lambda>arrayElement. arrayElement \<noteq> ''--'') argStrings0
            else argStrings0)
     in
     if length argStrings = 0 \<and> nargs action = OPTIONAL then
       (let v = (if isOptional action then constantValue action else defaultValue action)
        in case v of
             JStr s \<Rightarrow>
               (case getValue action s of
                  Inl e \<Rightarrow> Inl e
                | Inr v' \<Rightarrow> (case checkValue action v' of Inl e \<Rightarrow> Inl e | Inr u \<Rightarrow> Inr v'))
           | _ \<Rightarrow> Inr v)
     else if length argStrings = 0 \<and> nargs action = ZERO_OR_MORE \<and> isOptional action then
       (let v = (if truthy (defaultValue action) then defaultValue action
                 else JArr (map JStr argStrings))
        in case checkValue action v of Inl e \<Rightarrow> Inl e | Inr u \<Rightarrow> Inr v)
     else if length argStrings = 1 \<and> (nargs_falsy (nargs action) \<or> nargs action = OPTIONAL) then
       (case at argStrings 0 of
          None \<Rightarrow> Inl JsTypeError
        | Some argString \<Rightarrow>
            (case getValue action argString of
               Inl e \<Rightarrow> Inl e
             | Inr v \<Rightarrow> (case checkValue action v of Inl e \<Rightarrow> Inl e | Inr u \<Rightarrow> Inr v)))
     else if nargs action = REMAINDER then
       (case mapE (getValue action) argStrings of
          Inl e \<Rightarrow> Inl e
        | Inr vs \<Rightarrow> Inr (JArr vs))
     else if nargs action = PARSER then
       (case mapE (getValue action) argStrings of
          Inl e \<Rightarrow> Inl e
        | Inr vs \<Rightarrow>
            (case checkValue action (case at vs 0 of None \<Rightarrow> JUndefined | Some v0 \<Rightarrow> v0) of
               Inl e \<Rightarrow> Inl e
             | Inr u \<Rightarrow> Inr (JArr vs)))
     else
       (case mapE (getValue action) argStrings of
          Inl e \<Rightarrow> Inl e
        | Inr vs \<Rightarrow>
            (case mapE (checkValue action) vs of
               Inl e \<Rightarrow> Inl e
             | Inr us \<Rightarrow> Inr (JArr vs))))"

section \<open>Consumption Loop: \<open>_parseKnownArgs\<close>\<close>

text \<open>
  The variables of \<open>_parseKnownArgs\<close> that its inner functions only read are the context;
  those they assign are the state. \<open>actionConflicts\<close> is keyed by the Action.
  \<open>extras\<close> holds tokens; \<open>None\<close> is \<open>undefined\<close>, which \<open>argStrings[i]\<close> is for an
  index out of range.
\<close>

record 'ns ctx =
  argStrings :: "string list"
  argStringsPattern :: string
  optionStringIndices :: "(nat \<times> 'ns option_tuple) list"
  actionConflicts :: "(nat \<times> 'ns action list) list"

record 'ns pstate =
  extras :: "string option list"
  seenActions :: "nat list"
  seenNonDefaultActions :: "nat list"
  positionals :: "'ns action list"
  namespace :: "'ns"

text \<open>\<open>xs.indexOf(x)\<close>: the first position of \<open>x\<close>, or -1.\<close>

fun indexOf :: "'a list \<Rightarrow> 'a \<Rightarrow> int" where
  "indexOf [] x = -1"
| "indexOf (y # ys) x =
     (if y = x then 0 else (let i = indexOf ys x in if i < 0 then -1 else i + 1))"

subsection \<open>\<open>takeAction\<close>\<close>

definition takeAction ::
  "'ns parser \<Rightarrow> 'ns ctx \<Rightarrow> 'ns pstate \<Rightarrow> 'ns action \<Rightarrow> string list \<Rightarrow> string option
     \<Rightarrow> error + 'ns pstate" where
  "takeAction P C st action argumentStrings optionString =
    (let st1 = st\<lparr>seenActions := seenActions st @ [ident action]\<rparr> in
     case getValues action argumentStrings of
       Inl e \<Rightarrow> Inl e
     | Inr argumentValues \<Rightarrow>
        (case (if differsFromDefault action argumentValues then
                 (let st2 = st1\<lparr>seenNonDefaultActions :=
                                   seenNonDefaultActions st1 @ [ident action]\<rparr>
                  in case map_of (actionConflicts C) (ident action) of
                       None \<Rightarrow> Inr st2
                     | Some conflicts \<Rightarrow>
                        (case find (\<lambda>actionConflict.
                                 indexOf (seenNonDefaultActions st2) (ident actionConflict) > 0)
                               conflicts of
                           Some actionConflict \<Rightarrow>
                             Inl (NotAllowedWithArgument (ident action) (ident actionConflict))
                         | None \<Rightarrow> Inr st2))
               else Inr st1) of
           Inl e \<Rightarrow> Inl e
         | Inr st3 \<Rightarrow>
             if argumentValues \<noteq> SUPPRESS P then
               (case call action (namespace st3) argumentValues optionString of
                  Inl msg \<Rightarrow> Inl (ActionCallError msg)
                | Inr ns \<Rightarrow> Inr (st3\<lparr>namespace := ns\<rparr>))
             else Inr st3))"

text \<open>The loop \<open>for (i = 0; i < actionTuples.length; i++) takeAction.apply(...)\<close>\<close>

fun takeActions ::
  "'ns parser \<Rightarrow> 'ns ctx \<Rightarrow> 'ns pstate \<Rightarrow> ('ns action \<times> string list \<times> string) list
     \<Rightarrow> error + 'ns pstate" where
  "takeActions P C st [] = Inr st"
| "takeActions P C st ((action, args, optionString) # actionTuples) =
     (case takeAction P C st action args (Some optionString) of
        Inl e \<Rightarrow> Inl e
      | Inr st' \<Rightarrow> takeActions P C st' actionTuples)"

subsection \<open>\<open>consumeOptional\<close>\<close>

text \<open>
  The \<open>while (true)\<close> loop ends in one of three ways: \<open>return startIndex + 1\<close> from inside
  it (\<open>Return\<close>), \<open>break\<close> with \<open>actionTuples\<close> and \<open>stop\<close> set (\<open>Break\<close>), or a throw.
  \<open>explicitArg\<close> is \<open>None\<close> for \<open>null\<close> and \<open>undefined\<close>; \<open>!!explicitArg\<close> is also false
  for the empty string. With an inherited property as \<open>action\<close>, either branch calls
  \<open>_matchArgument\<close> first, whose \<open>_getNargsPattern\<close> reads \<open>action.nargs\<close>
  (\<open>undefined\<close>) and then calls \<open>action.isOptional()\<close>, which is not a function: the
  runtime's TypeError.
\<close>

datatype 'ns while_exit =
    Return "'ns pstate" nat
  | Break "('ns action \<times> string list \<times> string) list" nat

text \<open>A character of a string in a concatenation: \<open>undefined\<close> becomes the text \<open>undefined\<close>.\<close>

definition char_text :: "char option \<Rightarrow> string" where
  "char_text c = (case c of None \<Rightarrow> ''undefined'' | Some x \<Rightarrow> [x])"

function consumeOptional_while ::
  "'ns parser \<Rightarrow> 'ns ctx \<Rightarrow> nat \<Rightarrow> 'ns pstate \<Rightarrow> 'ns action property option \<Rightarrow> string
     \<Rightarrow> string option \<Rightarrow> ('ns action \<times> string list \<times> string) list
     \<Rightarrow> error + 'ns while_exit" where
  "consumeOptional_while P C startIndex st action optionString explicitArg actionTuples =
    (case action of
       None \<Rightarrow>
         Inr (Return (st\<lparr>extras := extras st @ [at (argStrings C) startIndex]\<rparr>) (startIndex + 1))
     | Some Inherited \<Rightarrow> Inl JsTypeError
     | Some (Own act) \<Rightarrow>
        (case (if explicitArg = Some [] then None else explicitArg) of
           Some explicit \<Rightarrow>
            (case matchArgument act ''A'' of
               Inl e \<Rightarrow> Inl e
             | Inr argCount \<Rightarrow>
                 if argCount = 0 \<and> \<not> indexOf_found (prefixChars P) (at optionString 1) then
                   (let actionTuples' = actionTuples @ [(act, [], optionString)];
                        optionString' = char_text (at optionString 0) @ char_text (at explicit 0);
                        newExplicitArg = (if drop 1 explicit = [] then None
                                          else Some (drop 1 explicit))
                    in if optionString' \<in> set (map fst (optionStringActions P)) then
                         consumeOptional_while P C startIndex st
                           (optionStringActions_get P optionString') optionString'
                           newExplicitArg actionTuples'
                       else Inl (IgnoredExplicitArgument (ident act) None))
                 else if argCount = 1 then
                   Inr (Break (actionTuples @ [(act, [explicit], optionString)]) (startIndex + 1))
                 else Inl (IgnoredExplicitArgument (ident act) (Some explicit)))
         | None \<Rightarrow>
            (let start = startIndex + 1;
                 selectedPatterns = drop start (argStringsPattern C)
             in case matchArgument act selectedPatterns of
                  Inl e \<Rightarrow> Inl e
                | Inr argCount \<Rightarrow>
                    (let stop = start + argCount;
                         args = slice (argStrings C) start stop
                     in Inr (Break (actionTuples @ [(act, args, optionString)]) stop)))))"
  by pat_completeness auto
termination
  by (relation "measure (\<lambda>(P, C, startIndex, st, action, optionString, explicitArg, actionTuples).
                  case explicitArg of None \<Rightarrow> 0 | Some e \<Rightarrow> length e)")
     (auto split: if_splits)

declare consumeOptional_while.simps [simp del]

definition consumeOptional ::
  "'ns parser \<Rightarrow> 'ns ctx \<Rightarrow> nat \<Rightarrow> 'ns pstate \<Rightarrow> error + 'ns pstate \<times> nat" where
  "consumeOptional P C startIndex st =
    (case map_of (optionStringIndices C) startIndex of
       None \<Rightarrow> Inl JsTypeError
     | Some (action, optionString, explicitArg) \<Rightarrow>
        (case consumeOptional_while P C startIndex st action optionString explicitArg [] of
           Inl e \<Rightarrow> Inl e
         | Inr (Return st' i) \<Rightarrow> Inr (st', i)
         | Inr (Break actionTuples stop) \<Rightarrow>
             if length actionTuples < 1 then Inl LengthShouldBePositive
             else (case takeActions P C st actionTuples of
                     Inl e \<Rightarrow> Inl e
                   | Inr st' \<Rightarrow> Inr (st', stop))))"

subsection \<open>\<open>consumePositionals\<close>\<close>

text \<open>
  \<open>_.zip(xs, ys)\<close> of the underscore library is as long as the longer of its arguments
  and fills the shorter one up with \<open>undefined\<close>.
\<close>

fun zip_pad :: "'a list \<Rightarrow> 'b list \<Rightarrow> ('a option \<times> 'b option) list" where
  "zip_pad [] [] = []"
| "zip_pad (x # xs) [] = (Some x, None) # zip_pad xs []"
| "zip_pad [] (y # ys) = (None, Some y) # zip_pad [] ys"
| "zip_pad (x # xs) (y # ys) = (Some x, Some y) # zip_pad xs ys"

text \<open>
  A number that is an index or \<open>NaN\<close>: \<open>startIndex += undefined\<close> makes \<open>startIndex\<close>
  \<open>NaN\<close>, and it stays so. As an argument of \<open>slice\<close>, \<open>NaN\<close> counts as 0; every
  comparison with \<open>NaN\<close> is false.
\<close>

datatype idx = Idx nat | NaN

definition idx_plus :: "idx \<Rightarrow> nat option \<Rightarrow> idx" where
  "idx_plus i n = (case (i, n) of (Idx a, Some b) \<Rightarrow> Idx (a + b) | _ \<Rightarrow> NaN)"

definition idx_int :: "idx \<Rightarrow> nat" where
  "idx_int i = (case i of Idx a \<Rightarrow> a | NaN \<Rightarrow> 0)"

definition idx_greater :: "idx \<Rightarrow> nat \<Rightarrow> bool" where
  "idx_greater i n = (case i of Idx a \<Rightarrow> a > n | NaN \<Rightarrow> False)"

text \<open>
  The \<open>forEach\<close> over the zipped pairs. \<open>takeAction(action, args)\<close> is called without an
  option string; with \<open>action\<close> \<open>undefined\<close> it fails on reading \<open>action.nargs\<close>.
\<close>

fun consumePositionals_each ::
  "'ns parser \<Rightarrow> 'ns ctx \<Rightarrow> ('ns action option \<times> nat option) list \<Rightarrow> idx \<Rightarrow> 'ns pstate
     \<Rightarrow> error + 'ns pstate \<times> idx" where
  "consumePositionals_each P C [] startIndex st = Inr (st, startIndex)"
| "consumePositionals_each P C ((action, argCount) # items) startIndex st =
    (let args = slice (argStrings C) (idx_int startIndex) (idx_int (idx_plus startIndex argCount));
         startIndex' = idx_plus startIndex argCount
     in case action of
          None \<Rightarrow> Inl JsTypeError
        | Some act \<Rightarrow>
            (case takeAction P C st act args None of
               Inl e \<Rightarrow> Inl e
             | Inr st' \<Rightarrow> consumePositionals_each P C items startIndex' st'))"

definition consumePositionals ::
  "'ns parser \<Rightarrow> 'ns ctx \<Rightarrow> nat \<Rightarrow> 'ns pstate \<Rightarrow> error + 'ns pstate \<times> idx" where
  "consumePositionals P C startIndex st =
    (let selectedPattern = drop startIndex (argStringsPattern C) in
     case matchArgumentsPartial (positionals st) selectedPattern of
       Inl e \<Rightarrow> Inl e
     | Inr argCounts \<Rightarrow>
        (case (if length argCounts > 0
               then consumePositionals_each P C (zip_pad (positionals st) argCounts)
                      (Idx startIndex) st
               else Inr (st, Idx startIndex)) of
           Inl e \<Rightarrow> Inl e
         | Inr (st', startIndex') \<Rightarrow>
             Inr (st'\<lparr>positionals := drop (length argCounts) (positionals st')\<rparr>, startIndex')))"

subsection \<open>The main loop\<close>

definition maxOptionStringIndex :: "(nat \<times> 'ns option_tuple) list \<Rightarrow> int" where
  "maxOptionStringIndex osi = fold (\<lambda>(position, t) m. max m (int position)) osi (- 1)"

definition nextOptionStringIndex :: "(nat \<times> 'ns option_tuple) list \<Rightarrow> nat \<Rightarrow> nat option" where
  "nextOptionStringIndex osi startIndex =
     fold (\<lambda>(position, t) next.
             if position \<ge> startIndex then
               (case next of None \<Rightarrow> Some position | Some n \<Rightarrow> Some (min n position))
             else next)
          osi None"

text \<open>
  One pass through the body of \<open>while (startIndex <= maxOptionStringIndex)\<close>, from the
  \<open>startIndex\<close> at its head to the \<open>startIndex\<close> at its end (by \<open>continue\<close> or by
  \<open>consumeOptional\<close>). \<open>nextOptionStringIndex\<close> is \<open>None\<close> for \<open>null\<close>, which \<open>slice\<close>
  counts as 0 and at which \<open>optionStringIndices\<close> has no entry.
\<close>

definition parse_step ::
  "'ns parser \<Rightarrow> 'ns ctx \<Rightarrow> nat \<Rightarrow> 'ns pstate \<Rightarrow> error + 'ns pstate \<times> nat" where
  "parse_step P C startIndex st =
    (let next = nextOptionStringIndex (optionStringIndices C) startIndex in
     case (if Some startIndex \<noteq> next then
             (case consumePositionals P C startIndex st of
                Inl e \<Rightarrow> Inl e
              | Inr (st', positionalsEndIndex) \<Rightarrow>
                  Inr (idx_greater positionalsEndIndex startIndex, st', positionalsEndIndex))
           else Inr (False, st, Idx startIndex)) of
       Inl e \<Rightarrow> Inl e
     | Inr (continue, st1, startIndex1) \<Rightarrow>
         if continue then Inr (st1, idx_int startIndex1)
         else
           (let (st2, startIndex2) =
                  (if (case startIndex1 of
                         NaN \<Rightarrow> True
                       | Idx i \<Rightarrow> map_of (optionStringIndices C) i = None)
                   then
                     (let strings = slice (argStrings C) (idx_int startIndex1)
                                      (case next of None \<Rightarrow> 0 | Some n \<Rightarrow> n)
                      in (st1\<lparr>extras := extras st1 @ map Some strings\<rparr>, next))
                   else (st1, Some (idx_int startIndex1)))
            in case startIndex2 of
                 None \<Rightarrow> Inl JsTypeError
               | Some i \<Rightarrow> consumeOptional P C i st2))"

text \<open>
  Every pass moves \<open>startIndex\<close> forward, which is why the loop ends: \<open>consumeOptional\<close>
  returns an index past the option, and a \<open>continue\<close> needs
  \<open>positionalsEndIndex > startIndex\<close>.
\<close>

lemma consumeOptional_while_index:
  "consumeOptional_while P C startIndex st action optionString explicitArg actionTuples = Inr r
   \<Longrightarrow> (case r of Return st' i \<Rightarrow> i = startIndex + 1
                | Break ts stop \<Rightarrow> stop > startIndex \<and> ts \<noteq> [])"
proof (induction P C startIndex st action optionString explicitArg actionTuples
       rule: consumeOptional_while.induct)
  case (1 P C startIndex st action optionString explicitArg actionTuples)
  show ?case
    using "1.prems" "1.IH"
    apply (subst (asm) consumeOptional_while.simps)
    apply (auto split: option.splits property.splits sum.splits if_splits simp: Let_def)
    done
qed

lemma consumeOptional_index:
  "consumeOptional P C i st = Inr (st', j) \<Longrightarrow> j > i"
  unfolding consumeOptional_def
  by (auto split: option.splits sum.splits while_exit.splits if_splits prod.splits
           dest: consumeOptional_while_index)

lemma nextOptionStringIndex_fold_ge:
  "fold (\<lambda>(position, t) next.
             if position \<ge> s then
               (case next of None \<Rightarrow> Some position | Some n \<Rightarrow> Some (min n position))
             else next) osi acc = Some n \<Longrightarrow> (\<forall>m. acc = Some m \<longrightarrow> m \<ge> s) \<Longrightarrow> n \<ge> (s::nat)"
  by (induction osi arbitrary: acc) (auto split: if_splits option.splits prod.splits)

lemma nextOptionStringIndex_ge:
  "nextOptionStringIndex osi s = Some n \<Longrightarrow> n \<ge> s"
  unfolding nextOptionStringIndex_def by (erule nextOptionStringIndex_fold_ge) simp

lemma consumePositionals_each_index:
  "consumePositionals_each P C items i st = Inr (st', Idx j) \<Longrightarrow> \<exists>a. i = Idx a \<and> a \<le> j"
proof (induction items arbitrary: i st)
  case Nil
  then show ?case by simp
next
  case (Cons item items)
  obtain action argCount where item: "item = (action, argCount)" by (cases item)
  from Cons.prems obtain act st1 where
    rec: "consumePositionals_each P C items (idx_plus i argCount) st1 = Inr (st', Idx j)"
    by (auto simp: item Let_def split: option.splits sum.splits)
  from Cons.IH [OF rec] obtain b where b: "idx_plus i argCount = Idx b" "b \<le> j" by blast
  then show ?case
    by (auto simp: idx_plus_def split: idx.splits option.splits)
qed

lemma consumePositionals_index:
  "consumePositionals P C s st = Inr (st', Idx j) \<Longrightarrow> s \<le> j"
  unfolding consumePositionals_def
  by (auto simp: Let_def split: sum.splits if_splits prod.splits
      dest!: consumePositionals_each_index)

lemma parse_step_index:
  "parse_step P C s st = Inr (st', s') \<Longrightarrow> s' > s"
  unfolding parse_step_def
  by (auto simp: Let_def idx_greater_def idx_int_def split: if_splits sum.splits prod.splits idx.splits option.splits
      dest!: consumeOptional_index nextOptionStringIndex_ge consumePositionals_index)

function parse_loop ::
  "'ns parser \<Rightarrow> 'ns ctx \<Rightarrow> nat \<Rightarrow> 'ns pstate \<Rightarrow> error + 'ns pstate \<times> nat" where
  "parse_loop P C startIndex st =
    (if int startIndex \<le> maxOptionStringIndex (optionStringIndices C) then
       (case parse_step P C startIndex st of
          Inl e \<Rightarrow> Inl e
        | Inr (st', startIndex') \<Rightarrow> parse_loop P C startIndex' st')
     else Inr (st, startIndex))"
  by pat_completeness auto
termination
  by (relation "measure (\<lambda>(P, C, startIndex, st).
                  nat (maxOptionStringIndex (optionStringIndices C) + 1 - int startIndex))")
     (auto dest!: parse_step_index)

declare parse_loop.simps [simp del]

subsection \<open>\<open>_parseKnownArgs\<close>\<close>

text \<open>
  \<open>parseKnownArgs\<close> below is the method \<open>_parseKnownArgs\<close> of the source, the core of
  the parse (its caller of the same name without the underscore seeds the namespace with
  the defaults and hands every error to \<open>this.error\<close>).
  \<open>_.rest(argStrings, stopIndex)\<close> of the underscore library is
  \<open>argStrings.slice(stopIndex)\<close>. \<open>self.error\<close> throws or exits the process. The result is
  the pair \<open>[namespace, extras]\<close>.
\<close>

definition parseKnownArgs ::
  "'ns parser \<Rightarrow> string list \<Rightarrow> 'ns \<Rightarrow> error + 'ns \<times> string option list" where
  "parseKnownArgs P args ns =
    (case classify P args of
       Inl e \<Rightarrow> Inl e
     | Inr (osi, pattern) \<Rightarrow>
        (let C = \<lparr>argStrings = args, argStringsPattern = pattern,
                  optionStringIndices = osi, actionConflicts = []\<rparr>;
             st0 = \<lparr>extras = [], seenActions = [], seenNonDefaultActions = [],
                    positionals = filter isPositional (parserActions P), namespace = ns\<rparr>
         in case parse_loop P C 0 st0 of
              Inl e \<Rightarrow> Inl e
            | Inr (st1, startIndex) \<Rightarrow>
               (case consumePositionals P C startIndex st1 of
                  Inl e \<Rightarrow> Inl e
                | Inr (st2, stopIndex) \<Rightarrow>
                   (let extras' = extras st2 @ map Some (drop (idx_int stopIndex) args)
                    in if length (positionals st2) > 0 then Inl TooFewArguments
                       else
                         (case find (\<lambda>action. required action \<and>
                                       indexOf (seenActions st2) (ident action) < 0)
                                 (parserActions P) of
                            Some action \<Rightarrow> Inl (ArgumentRequired (ident action))
                          | None \<Rightarrow> Inr (namespace st2, extras'))))))"

section \<open>Example schemas\<close>

text \<open>
  Concrete Actions and parsers for the evaluations below. The namespace is the list of
  the stores made so far; \<open>store_action\<close> is an Action that converts with the identity
  and stores its value under \<open>dest\<close>. \<open>schema\<close> is a parser with the prefix character
  \<open>-\<close> whose option strings are those of its Actions. \<open>array_choices vs\<close> is the array
  \<open>vs\<close> as a choice set, asked about values that name no property of an array.
\<close>

definition store_action ::
  "nat \<Rightarrow> string list \<Rightarrow> string \<Rightarrow> nargs \<Rightarrow> (string \<times> jsval) list action" where
  "store_action i names d n =
     \<lparr>ident = i, optionStrings = names, dest = d, nargs = n,
      typeFunction = Some (\<lambda>s. Some (JStr s)), defaultValue = JNull, constantValue = JNull,
      required = False, choices = None, differsFromDefault = (\<lambda>v. True),
      call = (\<lambda>ns v optionString. Inr (ns @ [(d, v)]))\<rparr>"

definition schema :: "(string \<times> jsval) list action list \<Rightarrow> (string \<times> jsval) list parser" where
  "schema as =
     \<lparr>prefixChars = ''-'', parserActions = as,
      optionStringActions = concat (map (\<lambda>a. map (\<lambda>s. (s, a)) (optionStrings a)) as),
      regexpNegativeNumber = (\<lambda>s. False), hasNegativeNumberOptionals = True,
      SUPPRESS = JStr ''==SUPPRESS==''\<rparr>"

definition array_choices :: "jsval list \<Rightarrow> choice_set" where
  "array_choices vs =
     \<lparr>prop_truthy = (\<lambda>v. False), indexOf_isFunction = True,
      indexOf_finds = (\<lambda>v. v \<in> set vs)\<rparr>"

text \<open>\<open>--foo\<close> takes one argument, \<open>--bar\<close> takes none.\<close>

definition foo_bar :: "(string \<times> jsval) list parser" where
  "foo_bar = schema [store_action 1 [''--foo''] ''foo'' NargsUnset,
                     store_action 2 [''--bar''] ''bar'' (NargsCount 0)]"

text \<open>A positional that takes the rest of the line, and a sub-command positional, both
  with the choice set \<open>['a']\<close>; a positional with \<open>nargs = '?'\<close> whose default is \<open>--\<close>.\<close>

definition rest_action :: "(string \<times> jsval) list action" where
  "rest_action = (store_action 1 [] ''rest'' REMAINDER)\<lparr>choices := Some (array_choices [JStr ''a''])\<rparr>"

definition subcommand_action :: "(string \<times> jsval) list action" where
  "subcommand_action = (store_action 1 [] ''cmd'' PARSER)\<lparr>choices := Some (array_choices [JStr ''a''])\<rparr>"

definition dashes_default_action :: "(string \<times> jsval) list action" where
  "dashes_default_action = (store_action 1 [] ''p'' OPTIONAL)\<lparr>defaultValue := JStr ''--''\<rparr>"

text \<open>A positional that takes one or more tokens.\<close>

definition names_action :: "(string \<times> jsval) list action" where
  "names_action = store_action 1 [] ''names'' ONE_OR_MORE"


text \<open>
  Three positionals of one token each, and the context and the state of a parse of
  \<open>x --unk y\<close> with the first two of them, before its first run of positionals.
\<close>

definition p1 :: "(string \<times> jsval) list action" where
  "p1 = store_action 1 [] ''p1'' NargsUnset"

definition p2 :: "(string \<times> jsval) list action" where
  "p2 = store_action 2 [] ''p2'' NargsUnset"

definition p3 :: "(string \<times> jsval) list action" where
  "p3 = store_action 3 [] ''p3'' NargsUnset"

definition run_ctx :: "(string \<times> jsval) list ctx" where
  "run_ctx = \<lparr>argStrings = [''x'', ''--unk'', ''y''], argStringsPattern = ''AOA'',
              optionStringIndices = [(1, (None, ''--unk'', None))], actionConflicts = []\<rparr>"

definition run_state :: "(string \<times> jsval) list pstate" where
  "run_state = \<lparr>extras = [], seenActions = [], seenNonDefaultActions = [],
                positionals = [p1, p2], namespace = []\<rparr>"

text \<open>
  The positionals \<open>p1\<close>, \<open>p2\<close> and the flag \<open>--foo\<close>, which takes no argument; and a
  parser whose prefix character is \<open>t\<close>, with the flag \<open>tidy\<close>.
\<close>

definition p1_p2_foo :: "(string \<times> jsval) list parser" where
  "p1_p2_foo = schema [p1, p2, store_action 3 [''--foo''] ''foo'' (NargsCount 0)]"

definition t_prefix :: "(string \<times> jsval) list parser" where
  "t_prefix = (schema [store_action 1 [''tidy''] ''tidy'' (NargsCount 0)])\<lparr>prefixChars := ''t''\<rparr>"

text \<open>Three single-dash flags that take no argument.\<close>

definition abc_parser :: "(string \<times> jsval) list parser" where
  "abc_parser = schema [store_action 1 [''-a''] ''a'' (NargsCount 0),
                        store_action 2 [''-b''] ''b'' (NargsCount 0),
                        store_action 3 [''-c''] ''c'' (NargsCount 0)]"

text \<open>
  A context in which the Action 2 is registered as conflicting with the Action 1, and a
  state in which the Action 1 has been seen with a value of its own.
\<close>

definition conflict_ctx :: "(string \<times> jsval) list ctx" where
  "conflict_ctx = \<lparr>argStrings = [], argStringsPattern = [], optionStringIndices = [],
                   actionConflicts = [(2, [p1])]\<rparr>"

definition conflict_state :: "(string \<times> jsval) list pstate" where
  "conflict_state = \<lparr>extras = [], seenActions = [0, 1], seenNonDefaultActions = [0, 1],
                     positionals = [], namespace = []\<rparr>"

section \<open>Token Classifier: the pattern string and the token list\<close>

text \<open>
  Claim C1: the pattern string is as long as the token list and every index of the
  option-tuple map is an \<open>O\<close> of the pattern; on \<open>--\<close> the classifier emits one \<open>-\<close> and
  one \<open>A\<close> for each token after it, and nothing more for those tokens.

  The code does not do this. For the single token \<open>--\<close> the pattern is \<open>-A\<close>, two
  characters for one token: the \<open>while\<close> loop starts at the index of \<open>--\<close> itself. And
  \<open>forEach\<close> classifies the tokens after \<open>--\<close> once more: for \<open>--\<close>, \<open>--foo\<close> the pattern is
  \<open>-AAO\<close> and the map has index 1, where the pattern has \<open>A\<close>.
\<close>

theorem classify_separator_misaligned:
  "classify P [''--''] = Inr ([], ''-A'') \<and>
   map_sum id (\<lambda>(osi, pattern). (map fst osi, pattern)) (classify foo_bar [''--'', ''--foo''])
     = Inr ([1], ''-AAO'')"
proof
  show "classify P [''--''] = Inr ([], ''-A'')"
    by (simp add: classify_def)
  show "map_sum id (\<lambda>(osi, pattern). (map fst osi, pattern))
          (classify foo_bar [''--'', ''--foo'']) = Inr ([1], ''-AAO'')"
    by code_simp
qed

section \<open>Arity Matcher: where the match starts\<close>

text \<open>
  Claim C2: the arity matcher matches the Action's grammar anchored at the start of the
  window, and a window whose first characters do not fit is a no-match.

  The code does not anchor: \<open>String.match\<close> searches the whole window. For \<open>--foo\<close>,
  which takes one argument, and the window \<open>OA\<close> the matcher returns 1, the \<open>A\<close> found
  at the second position; \<open>consumeOptional\<close> then slices one token from the start of the
  window, so \<open>--foo --bar x\<close> stores the option \<open>--bar\<close> as the value of \<open>--foo\<close>.
\<close>

theorem matchArgument_not_anchored:
  "matchArgument (store_action 1 [''--foo''] ''foo'' NargsUnset) ''OA'' = Inr 1 \<and>
   parseKnownArgs foo_bar [''--foo'', ''--bar'', ''x''] []
     = Inr ([(''foo'', JStr ''--bar'')], [Some ''x''])"
  by code_simp

section \<open>Option Resolver: abbreviations with an explicit argument\<close>

text \<open>
  Claim C3: a token with two prefix characters and an \<open>=\<close>, without an exact match,
  whose part before the \<open>=\<close> is the prefix of exactly one option string, resolves to that
  option with the part after the \<open>=\<close> as the explicit argument.

  The code loses the explicit argument: \<open>optionString.split('=', 1)\<close> has one element,
  so \<open>optionStringSplit[1]\<close> is \<open>undefined\<close>. \<open>--fo=bar\<close> resolves to \<open>--foo\<close> with no
  explicit argument, and \<open>--fo=bar x\<close> stores \<open>x\<close>, not \<open>bar\<close>.
\<close>

theorem parseOptional_abbreviation_drops_explicit:
  "map_sum id (map_option (\<lambda>(a, s, e). (map_option (map_property ident) a, s, e)))
     (parseOptional foo_bar ''--fo=bar'') = Inr (Some (Some (Own 1), ''--foo'', None)) \<and>
   parseKnownArgs foo_bar [''--fo=bar'', ''x''] [] = Inr ([(''foo'', JStr ''x'')], [])"
  by code_simp

section \<open>Value Converter: \<open>--\<close>, Remainder and ParserHandoff\<close>

lemma mapE_Inr:
  "mapE f xs = Inr ys \<Longrightarrow> length ys = length xs \<and> (\<forall>i < length xs. f (xs ! i) = Inr (ys ! i))"
proof (induction xs arbitrary: ys)
  case Nil
  then show ?case by simp
next
  case (Cons x xs)
  then show ?case
    by (auto split: sum.splits simp: nth_Cons split: nat.splits)
qed

lemma getValues_filter:
  "nargs a \<noteq> REMAINDER \<Longrightarrow> nargs a \<noteq> PARSER \<Longrightarrow>
     getValues a toks = getValues a (filter (\<lambda>t. t \<noteq> ''--'') toks)"
  by (simp add: getValues_def)

lemma getValues_remainder:
  "nargs a = REMAINDER \<Longrightarrow>
     getValues a toks =
       (case mapE (getValue a) toks of Inl e \<Rightarrow> Inl e | Inr vs \<Rightarrow> Inr (JArr vs))"
  by (simp add: getValues_def nargs_falsy_def)

lemma getValues_parser:
  "nargs a = PARSER \<Longrightarrow>
     getValues a toks =
       (case mapE (getValue a) toks of
          Inl e \<Rightarrow> Inl e
        | Inr vs \<Rightarrow>
            (case checkValue a (case vs of [] \<Rightarrow> JUndefined | v # rest \<Rightarrow> v) of
               Inl e \<Rightarrow> Inl e
             | Inr u \<Rightarrow> Inr (JArr vs)))"
  by (auto simp add: getValues_def nargs_falsy_def at_def split: sum.splits list.splits)

lemma getValues_from_tokens:
  assumes "nargs a \<noteq> REMAINDER" "nargs a \<noteq> PARSER"
    and "filter (\<lambda>t. t \<noteq> ''--'') toks \<noteq> []"
    and "getValues a toks = Inr v"
  shows "\<exists>vs. mapE (getValue a) (filter (\<lambda>t. t \<noteq> ''--'') toks) = Inr vs \<and>
              (v = JArr vs \<or> vs = [v])"
proof -
  obtain t ts where f: "filter (\<lambda>t. t \<noteq> ''--'') toks = t # ts"
    using assms(3) by (cases "filter (\<lambda>t. t \<noteq> ''--'') toks") auto
  show ?thesis
    using assms(1,2,4)
    by (auto simp: getValues_def Let_def f at_def split: if_splits sum.splits)
qed

text \<open>
  Claim C6, as the spec states it: for Remainder and ParserHandoff the converter converts
  every token and choice-checks only the first value. For Remainder this fails: the
  branch checks nothing ("REMAINDER arguments convert all values, checking none"). With
  the choice set \<open>['a']\<close>, the tokens \<open>b\<close>, \<open>c\<close> are accepted, although the check of the
  first value \<open>b\<close> alone rejects it.
\<close>

theorem getValues_remainder_unchecked:
  "getValues rest_action [''b'', ''c''] = Inr (JArr [JStr ''b'', JStr ''c'']) \<and>
   checkValue rest_action (JStr ''b'') = Inl (InvalidChoice 1 (JStr ''b''))"
  by code_simp

text \<open>
  Claim C6, amended: for ParserHandoff the result is the list of the converted tokens,
  all of them converted in order, after a choice check of the first value only (of
  \<open>undefined\<close> when there is no token); for Remainder it is that list with no choice
  check at all. A failing conversion is the error of the first token that fails.
\<close>

theorem getValues_remainder_parser:
  "(nargs a = REMAINDER \<longrightarrow>
      getValues a toks =
        (case mapE (getValue a) toks of Inl e \<Rightarrow> Inl e | Inr vs \<Rightarrow> Inr (JArr vs))) \<and>
   (nargs a = PARSER \<longrightarrow>
      getValues a toks =
        (case mapE (getValue a) toks of
           Inl e \<Rightarrow> Inl e
         | Inr vs \<Rightarrow>
             (case checkValue a (case vs of [] \<Rightarrow> JUndefined | v # rest \<Rightarrow> v) of
                Inl e \<Rightarrow> Inl e
              | Inr u \<Rightarrow> Inr (JArr vs)))) \<and>
   (mapE (getValue a) toks = Inr vs \<longrightarrow>
      length vs = length toks \<and> (\<forall>i < length toks. getValue a (toks ! i) = Inr (vs ! i)))"
  using getValues_remainder [of a toks] getValues_parser [of a toks]
        mapE_Inr [of "getValue a" toks vs]
  by blast

theorem getValues_remainder_parser_witness:
  "nargs subcommand_action = PARSER \<and>
   getValues subcommand_action [''a'', ''zzz''] = Inr (JArr [JStr ''a'', JStr ''zzz'']) \<and>
   getValues subcommand_action [''zzz'', ''a''] = Inl (InvalidChoice 1 (JStr ''zzz'')) \<and>
   nargs rest_action = REMAINDER \<and>
   getValues rest_action [''zzz'', ''a''] = Inr (JArr [JStr ''zzz'', JStr ''a''])"
proof -
  have p: "nargs subcommand_action = PARSER" by code_simp
  have r: "nargs rest_action = REMAINDER" by code_simp
  have "getValues subcommand_action [''a'', ''zzz''] =
          (case mapE (getValue subcommand_action) [''a'', ''zzz''] of
             Inl e \<Rightarrow> Inl e
           | Inr vs \<Rightarrow>
               (case checkValue subcommand_action (case vs of [] \<Rightarrow> JUndefined | v # rest \<Rightarrow> v) of
                  Inl e \<Rightarrow> Inl e
                | Inr u \<Rightarrow> Inr (JArr vs)))"
    using getValues_remainder_parser [of subcommand_action "[''a'', ''zzz'']"] p by blast
  also have "\<dots> = Inr (JArr [JStr ''a'', JStr ''zzz''])" by code_simp
  finally have e1: "getValues subcommand_action [''a'', ''zzz''] = Inr (JArr [JStr ''a'', JStr ''zzz''])" .
  have "getValues subcommand_action [''zzz'', ''a''] =
          (case mapE (getValue subcommand_action) [''zzz'', ''a''] of
             Inl e \<Rightarrow> Inl e
           | Inr vs \<Rightarrow>
               (case checkValue subcommand_action (case vs of [] \<Rightarrow> JUndefined | v # rest \<Rightarrow> v) of
                  Inl e \<Rightarrow> Inl e
                | Inr u \<Rightarrow> Inr (JArr vs)))"
    using getValues_remainder_parser [of subcommand_action "[''zzz'', ''a'']"] p by blast
  also have "\<dots> = Inl (InvalidChoice 1 (JStr ''zzz''))" by code_simp
  finally have e2: "getValues subcommand_action [''zzz'', ''a''] = Inl (InvalidChoice 1 (JStr ''zzz''))" .
  have "getValues rest_action [''zzz'', ''a''] =
          (case mapE (getValue rest_action) [''zzz'', ''a''] of
             Inl e \<Rightarrow> Inl e | Inr vs \<Rightarrow> Inr (JArr vs))"
    using getValues_remainder_parser [of rest_action "[''zzz'', ''a'']"] r by blast
  also have "\<dots> = Inr (JArr [JStr ''zzz'', JStr ''a''])" by code_simp
  finally have e3: "getValues rest_action [''zzz'', ''a''] = Inr (JArr [JStr ''zzz'', JStr ''a''])" .
  show ?thesis using p r e1 e2 e3 by simp
qed

text \<open>
  Claim C10, as stated: for an arity other than Remainder and ParserHandoff every \<open>--\<close> is
  removed from the slice before conversion, so the converted value never contains \<open>--\<close>.
  The removal holds; the consequence does not: when nothing is left after the removal, a
  positional with \<open>nargs = '?'\<close> takes its value from its default, and with the default
  \<open>--\<close> and the identity as converter the value is \<open>--\<close>.
\<close>

theorem getValues_default_dashes:
  "getValues dashes_default_action [''--''] = Inr (JStr ''--'')"
  by code_simp

text \<open>
  Claim C10, amended: for an arity other than Remainder and ParserHandoff the result is
  that of the slice without its \<open>--\<close> tokens, so no \<open>--\<close> of the slice is converted; when
  a token other than \<open>--\<close> is in the slice, the value is the conversion of exactly those
  tokens (their list, or the single one). For Remainder and ParserHandoff every token of
  the slice, \<open>--\<close> included, is converted and kept.
\<close>

theorem getValues_separator_tokens:
  "(nargs a \<noteq> REMAINDER \<and> nargs a \<noteq> PARSER \<longrightarrow>
      getValues a toks = getValues a (filter (\<lambda>t. t \<noteq> ''--'') toks) \<and>
      (filter (\<lambda>t. t \<noteq> ''--'') toks \<noteq> [] \<and> getValues a toks = Inr v \<longrightarrow>
         (\<exists>vs. mapE (getValue a) (filter (\<lambda>t. t \<noteq> ''--'') toks) = Inr vs \<and>
               (v = JArr vs \<or> vs = [v])))) \<and>
   ((nargs a = REMAINDER \<or> nargs a = PARSER) \<and> getValues a toks = Inr v \<longrightarrow>
      (\<exists>vs. mapE (getValue a) toks = Inr vs \<and> v = JArr vs))"
proof (intro conjI impI)
  assume "nargs a \<noteq> REMAINDER \<and> nargs a \<noteq> PARSER"
  then show "getValues a toks = getValues a (filter (\<lambda>t. t \<noteq> ''--'') toks)"
    using getValues_filter by blast
next
  assume "nargs a \<noteq> REMAINDER \<and> nargs a \<noteq> PARSER"
    and "filter (\<lambda>t. t \<noteq> ''--'') toks \<noteq> [] \<and> getValues a toks = Inr v"
  then show "\<exists>vs. mapE (getValue a) (filter (\<lambda>t. t \<noteq> ''--'') toks) = Inr vs \<and>
               (v = JArr vs \<or> vs = [v])"
    using getValues_from_tokens [of a toks v] by blast
next
  assume h: "(nargs a = REMAINDER \<or> nargs a = PARSER) \<and> getValues a toks = Inr v"
  then show "\<exists>vs. mapE (getValue a) toks = Inr vs \<and> v = JArr vs"
    using getValues_remainder [of a toks] getValues_parser [of a toks]
    by (auto split: sum.splits)
qed

theorem getValues_separator_tokens_witness:
  "nargs names_action \<noteq> REMAINDER \<and> nargs names_action \<noteq> PARSER \<and>
   filter (\<lambda>t. t \<noteq> ''--'') [''--'', ''x'', ''--'', ''y''] \<noteq> [] \<and>
   getValues names_action [''--'', ''x'', ''--'', ''y''] = Inr (JArr [JStr ''x'', JStr ''y'']) \<and>
   getValues names_action [''--'', ''x'', ''--'', ''y''] = getValues names_action [''x'', ''y''] \<and>
   (\<exists>vs. mapE (getValue names_action) [''x'', ''y''] = Inr vs \<and>
         (JArr [JStr ''x'', JStr ''y''] = JArr vs \<or> vs = [JArr [JStr ''x'', JStr ''y'']])) \<and>
   nargs rest_action = REMAINDER \<and>
   getValues rest_action [''--'', ''b''] = Inr (JArr [JStr ''--'', JStr ''b'']) \<and>
   mapE (getValue rest_action) [''--'', ''b''] = Inr [JStr ''--'', JStr ''b'']"
proof -
  let ?toks = "[''--'', ''x'', ''--'', ''y'']"
  have n: "nargs names_action \<noteq> REMAINDER \<and> nargs names_action \<noteq> PARSER" by code_simp
  have f: "filter (\<lambda>t. t \<noteq> ''--'') ?toks = [''x'', ''y'']" by simp
  have g: "getValues names_action ?toks = Inr (JArr [JStr ''x'', JStr ''y''])" by code_simp
  have r: "nargs rest_action = REMAINDER" by code_simp
  have gr: "getValues rest_action [''--'', ''b''] = Inr (JArr [JStr ''--'', JStr ''b''])"
    by code_simp
  note t1 = getValues_separator_tokens [of names_action ?toks "JArr [JStr ''x'', JStr ''y'']"]
  note t2 = getValues_separator_tokens [of rest_action "[''--'', ''b'']" "JArr [JStr ''--'', JStr ''b'']"]
  have a1: "getValues names_action ?toks = getValues names_action [''x'', ''y'']"
    using t1 n f by simp
  have a2: "\<exists>vs. mapE (getValue names_action) [''x'', ''y''] = Inr vs \<and>
         (JArr [JStr ''x'', JStr ''y''] = JArr vs \<or> vs = [JArr [JStr ''x'', JStr ''y'']])"
    using t1 n f g by simp
  have a3: "mapE (getValue rest_action) [''--'', ''b''] = Inr [JStr ''--'', JStr ''b'']"
    using t2 r gr by auto
  show ?thesis using n f g a1 a2 r gr a3 by simp
qed

section \<open>Option Resolver: abbreviations and ambiguity\<close>

text \<open>
  The candidates of the prefix search, in the spec's words (step 5 of the resolver):
  every known option string that starts with the token's prefix portion; for a token
  with two prefix characters the portion before the \<open>=\<close>; for a token with one, the
  whole token, and also the known two-character flag that the token begins with.
\<close>

definition candidate :: "'ns parser \<Rightarrow> string \<Rightarrow> string \<Rightarrow> bool" where
  "candidate P tok k =
     (if indexOf_found (prefixChars P) (at tok 1)
      then starts_with k (takeWhile (\<lambda>c. c \<noteq> CHR ''='') tok)
      else k = take 2 tok \<or> starts_with k tok)"

lemma at_Cons_simps:
  "at (x # xs) 0 = Some x" "at (x # y # ys) (Suc 0) = Some y" "at [x] (Suc 0) = None"
  "at [] n = None"
  by (simp_all add: at_def)

lemma split_on_first:
  "\<exists>ps. split_on sep s = takeWhile (\<lambda>c. c \<noteq> sep) s # ps"
  by (induction s) (auto split: list.splits)

lemma take1_split_on:
  "take 1 (split_on sep s) = [takeWhile (\<lambda>c. c \<noteq> sep) s]"
  "take (Suc 0) (split_on sep s) = [takeWhile (\<lambda>c. c \<noteq> sep) s]"
  using split_on_first [of sep s] by auto

lemma at_split_on_0:
  "at (split_on sep s) 0 = Some (takeWhile (\<lambda>c. c \<noteq> sep) s)"
  using split_on_first [of sep s] by (auto simp: at_def)

lemma takeWhile_no_sep:
  "sep \<notin> set s \<Longrightarrow> takeWhile (\<lambda>c. c \<noteq> sep) s = s"
  by (induction s) auto

lemma concat_map_if:
  "concat (map (\<lambda>(k, a). if p k then [f k a] else []) xs) =
     map (\<lambda>(k, a). f k a) (filter (\<lambda>(k, a). p k) xs)"
  by (induction xs) auto

lemma at_singleton_1: "at [x] 1 = None"
  by (simp add: at_def)

lemma getOptionTuples_candidates:
  assumes "tok = c # d # rest" and "c \<in> set (prefixChars P)"
  shows "getOptionTuples P tok =
           Inr (map (\<lambda>(k, a). (Some (Own a), k,
                        if d \<notin> set (prefixChars P) \<and> k = take 2 tok
                        then Some (drop 2 tok) else None))
                  (filter (\<lambda>(k, a). candidate P tok k) (optionStringActions P)))"
proof -
  have a0: "at tok 0 = Some c" and a1: "at tok 1 = Some d" "at tok (Suc 0) = Some d"
    using assms(1) by (simp_all add: at_def)
  show ?thesis
  proof (cases "d \<in> set (prefixChars P)")
    case True
    have pre: "(if CHR ''='' \<in> set tok
                then (let optionStringSplit = take 1 (split_on CHR ''='' tok)
                      in (at optionStringSplit 0, at optionStringSplit 1))
                else (Some tok, None))
               = (Some (takeWhile (\<lambda>c. c \<noteq> CHR ''='') tok), None)"
      by (simp add: take1_split_on at_Cons_simps at_singleton_1 takeWhile_no_sep Let_def
               del: split_on.simps)
    have "getOptionTuples P tok =
            Inr (concat (map (\<lambda>(k, a). if starts_with k (takeWhile (\<lambda>c. c \<noteq> CHR ''='') tok)
                                       then [(Some (Own a), k, None)] else [])
                  (optionStringActions P)))"
      unfolding getOptionTuples_def pre
      using assms(2) True by (simp add: Let_def indexOf_found_def a0 a1)
    also have "\<dots> = Inr (map (\<lambda>(k, a). (Some (Own a), k, None))
                       (filter (\<lambda>(k, a). starts_with k (takeWhile (\<lambda>c. c \<noteq> CHR ''='') tok))
                          (optionStringActions P)))"
      by (simp add: concat_map_if)
    finally show ?thesis
      using True by (simp add: candidate_def indexOf_found_def a1)
  next
    case False
    have eq: "(\<lambda>(k, a). if k = take 2 tok then [(Some (Own a), k, Some (drop 2 tok))]
                        else if starts_with k tok then [(Some (Own a), k, None)] else [])
              = (\<lambda>(k, a). if k = take 2 tok \<or> starts_with k tok
                          then [(Some (Own a), k, if k = take 2 tok then Some (drop 2 tok) else None)]
                          else [])"
      by (auto simp: fun_eq_iff)
    have "getOptionTuples P tok =
            Inr (concat (map (\<lambda>(k, a). if k = take 2 tok \<or> starts_with k tok
                                       then [(Some (Own a), k, if k = take 2 tok then Some (drop 2 tok) else None)]
                                       else [])
                  (optionStringActions P)))"
      unfolding getOptionTuples_def
      using assms(2) False by (simp add: Let_def indexOf_found_def a0 a1 eq)
    also have "\<dots> = Inr (map (\<lambda>(k, a). (Some (Own a), k, if k = take 2 tok then Some (drop 2 tok) else None))
                       (filter (\<lambda>(k, a). k = take 2 tok \<or> starts_with k tok) (optionStringActions P)))"
      by (simp add: concat_map_if)
    finally show ?thesis
      using False by (simp add: candidate_def indexOf_found_def a1)
  qed
qed

lemma parseOptional_undeclared:
  assumes "tok = c # d # rest" and "c \<in> set (prefixChars P)"
    and "optionStringActions_get P tok = None"
    and "optionStringActions_get P (takeWhile (\<lambda>x. x \<noteq> CHR ''='') tok) = None"
  shows "parseOptional P tok =
           (case map (\<lambda>(k, a). (Some (Own a), k,
                        if d \<notin> set (prefixChars P) \<and> k = take 2 tok
                        then Some (drop 2 tok) else None))
                  (filter (\<lambda>(k, a). candidate P tok k) (optionStringActions P)) of
              t1 # t2 # ts \<Rightarrow>
                Inl (AmbiguousOption tok
                       (map fst (filter (\<lambda>(k, a). candidate P tok k) (optionStringActions P))))
            | [t] \<Rightarrow> Inr (Some t)
            | [] \<Rightarrow>
                if regexpNegativeNumber P tok \<and> \<not> hasNegativeNumberOptionals P then Inr None
                else if CHR '' '' \<in> set tok then Inr None
                else Inr (Some (None, tok, None)))"
proof -
  have m: "map (\<lambda>optionTuple. fst (snd optionTuple))
             (map (\<lambda>(k, a). (Some (Own a), k, e k)) xs) = map fst xs" for e :: "string \<Rightarrow> string option"
      and xs :: "(string \<times> 'a action) list"
    by (induction xs) auto
  have a0: "at tok 0 = Some c" and ne: "tok \<noteq> []" and len: "length tok \<noteq> 1"
    using assms(1) by (simp_all add: at_def)
  have split: "(if CHR ''='' \<in> set tok then
                 (let argStringSplit = split_on CHR ''='' tok;
                      optionString = at argStringSplit 0;
                      argExplicit = at argStringSplit 1
                  in case optionString of
                       None \<Rightarrow> None
                     | Some optionString \<Rightarrow>
                         (case optionStringActions_get P optionString of
                            None \<Rightarrow> None
                          | Some action \<Rightarrow> Some (Some action, optionString, argExplicit)))
               else None) = None"
    using assms(4) by (simp add: Let_def at_split_on_0 del: split_on.simps)
  define L where "L = map (\<lambda>(k, a). (Some (Own a), k,
                        if d \<notin> set (prefixChars P) \<and> k = take 2 tok
                        then Some (drop 2 tok) else None))
                  (filter (\<lambda>(k, a). candidate P tok k) (optionStringActions P))"
  have mL: "map fst (filter (\<lambda>(k, a). candidate P tok k) (optionStringActions P))
              = map (\<lambda>optionTuple. fst (snd optionTuple)) L"
    unfolding L_def by (rule m [symmetric])
  show ?thesis
    unfolding parseOptional_def getOptionTuples_candidates [OF assms(1,2)] split mL
      L_def [symmetric]
    using assms(2,3) ne len
    by (simp add: indexOf_found_def a0 split: list.splits)
qed









section \<open>Arity Matcher: the patterns and their matches\<close>

text \<open>
  Every pattern that \<open>_getNargsPattern\<close> builds compiles, and so does every concatenation
  of such patterns: \<open>nargs_group\<close> is the capture group an Action's pattern compiles to
  (the right column for an option, after the two \<open>replace\<close> calls).
\<close>

definition nargs_group :: "'ns action \<Rightarrow> item list" where
  "nargs_group a =
     (if isOptional a then
        (case nargs a of
           NargsUnset \<Rightarrow> [(''A'', QOne)]
         | OPTIONAL \<Rightarrow> [(''A'', QOpt)]
         | ZERO_OR_MORE \<Rightarrow> [(''A'', QStar)]
         | ONE_OR_MORE \<Rightarrow> [(''A'', QOne), (''A'', QStar)]
         | REMAINDER \<Rightarrow> [(''AO'', QStar)]
         | PARSER \<Rightarrow> [(''A'', QOne), (''AO'', QStar)]
         | NargsCount n \<Rightarrow> replicate n (''A'', QOne))
      else
        (case nargs a of
           NargsUnset \<Rightarrow> [(''-'', QStar), (''A'', QOne), (''-'', QStar)]
         | OPTIONAL \<Rightarrow> [(''-'', QStar), (''A'', QOpt), (''-'', QStar)]
         | ZERO_OR_MORE \<Rightarrow> [(''-'', QStar), (''A-'', QStar)]
         | ONE_OR_MORE \<Rightarrow> [(''-'', QStar), (''A'', QOne), (''A-'', QStar)]
         | REMAINDER \<Rightarrow> [(''-AO'', QStar)]
         | PARSER \<Rightarrow> [(''-'', QStar), (''A'', QOne), (''-AO'', QStar)]
         | NargsCount n \<Rightarrow>
             (''-'', QStar) # concat (replicate n [(''-'', QStar), (''A'', QOne)]) @ [(''-'', QStar)]))"

lemma rx_scan_count_positional:
  "rx_scan (concat (replicate n ''-*A'') @ rest) groups (Some items) None =
     rx_scan rest groups (Some (items @ concat (replicate n [(''-'', QStar), (''A'', QOne)]))) None"
  by (induction n arbitrary: items) simp_all

lemma rx_scan_count_optional:
  "rx_scan (replicate n CHR ''A'' @ rest) groups (Some items) None =
     rx_scan rest groups (Some (items @ replicate n (''A'', QOne))) None"
  by (induction n arbitrary: items) (simp_all add: replicate_app_Cons_same)

lemma count_pattern_head:
  "\<exists>cs. concat (replicate n ''-*A'') @ ''-*)'' = CHR ''-'' # cs"
  by (cases n) simp_all

lemma replace_dash_star_count:
  "replace_dash_star (concat (replicate n ''-*A'') @ ''-*)'') = replicate n CHR ''A'' @ '')''"
proof (induction n)
  case 0
  show ?case by simp
next
  case (Suc n)
  obtain cs where cs: "concat (replicate n ''-*A'') @ ''-*)'' = CHR ''-'' # cs"
    using count_pattern_head by blast
  have "replace_dash_star (concat (replicate (Suc n) ''-*A'') @ ''-*)'')
          = replace_dash_star (CHR ''A'' # concat (replicate n ''-*A'') @ ''-*)'')"
    by simp
  also have "\<dots> = CHR ''A'' # replace_dash_star (concat (replicate n ''-*A'') @ ''-*)'')"
    by (simp add: cs)
  finally show ?case using Suc by simp
qed

lemma getNargsPattern_count_optional:
  "isOptional a \<Longrightarrow> nargs a = NargsCount n \<Longrightarrow>
     getNargsPattern a = ''('' @ replicate n CHR ''A'' @ '')''"
  by (simp add: getNargsPattern_def replace_dash_star_count replace_dash_def)

lemma rx_scan_getNargsPattern:
  "rx_scan (getNargsPattern a @ rest) groups None None =
     rx_scan rest (groups @ [nargs_group a]) None None"
proof (cases "isOptional a")
  case True
  show ?thesis
  proof (cases "nargs a")
    case (NargsCount n)
    show ?thesis
      using True NargsCount
      by (simp add: getNargsPattern_count_optional nargs_group_def rx_scan_count_optional)
  qed (simp_all add: True getNargsPattern_def nargs_group_def replace_dash_def)
next
  case False
  show ?thesis
  proof (cases "nargs a")
    case (NargsCount n)
    show ?thesis
      using False NargsCount
      by (simp add: getNargsPattern_def nargs_group_def rx_scan_count_positional)
  qed (simp_all add: False getNargsPattern_def nargs_group_def)
qed

lemma rx_scan_patterns:
  "rx_scan (concat (map getNargsPattern as) @ rest) groups None None =
     rx_scan rest (groups @ map nargs_group as) None None"
  by (induction as arbitrary: groups) (simp_all add: rx_scan_getNargsPattern)

lemma RegExp_patterns:
  "RegExp (concat (map getNargsPattern as)) = Some (map nargs_group as)"
  using rx_scan_patterns [of as "[]" "[]"] by (simp add: RegExp_def)

lemma RegExp_getNargsPattern:
  "RegExp (getNargsPattern a) = Some [nargs_group a]"
  using RegExp_patterns [of "[a]"] by simp

lemma groups_all_length:
  "ns \<in> set (groups_all r s) \<Longrightarrow> length ns = length r"
  by (induction r arbitrary: s ns) auto

lemma cut_length: "length (cut s ns) = length ns"
  by (induction ns arbitrary: s) auto

lemma groups_all_head_length:
  "groups_all r s = ns # rest \<Longrightarrow> length ns = length r"
  using groups_all_length [of ns r s] by simp

lemma regexp_search_length:
  "regexp_search r s = Some ms \<Longrightarrow> length ms = Suc (length r)"
proof (induction s)
  case Nil
  then show ?case
    by (auto split: list.splits simp: cut_length dest: groups_all_head_length)
next
  case (Cons c cs)
  then show ?case
    by (auto split: list.splits simp: cut_length dest: groups_all_head_length)
qed

lemma String_match_patterns:
  "String_match w (concat (map getNargsPattern as)) = Inr (regexp_search (map nargs_group as) w)"
  by (simp add: String_match_def RegExp_patterns)

lemma String_match_pattern:
  "String_match w (getNargsPattern a) = Inr (regexp_search [nargs_group a] w)"
  using String_match_patterns [of w "[a]"] by simp

lemma matchArgumentsPartial_loop_greedy:
  "i \<le> length actions \<Longrightarrow>
   \<exists>k \<le> i.
     (\<forall>j. k < j \<and> j \<le> i \<longrightarrow>
          String_match w (concat (map getNargsPattern (take j actions))) = Inr None) \<and>
     (if k = 0 then matchArgumentsPartial_loop i actions w = Inr []
      else \<exists>matches.
             String_match w (concat (map getNargsPattern (take k actions))) = Inr (Some matches) \<and>
             length matches = Suc k \<and>
             matchArgumentsPartial_loop i actions w = Inr (map length (drop 1 matches)))"
proof (induction i)
  case 0
  show ?case by simp
next
  case (Suc i)
  let ?pat = "concat (map getNargsPattern (take (Suc i) actions))"
  show ?case
  proof (cases "regexp_search (map nargs_group (take (Suc i) actions)) w")
    case None
    then have none: "String_match w ?pat = Inr None"
      by (simp add: String_match_patterns)
    from Suc obtain k where k: "k \<le> i"
      "\<forall>j. k < j \<and> j \<le> i \<longrightarrow>
          String_match w (concat (map getNargsPattern (take j actions))) = Inr None"
      "if k = 0 then matchArgumentsPartial_loop i actions w = Inr []
       else \<exists>matches.
             String_match w (concat (map getNargsPattern (take k actions))) = Inr (Some matches) \<and>
             length matches = Suc k \<and>
             matchArgumentsPartial_loop i actions w = Inr (map length (drop 1 matches))"
      by auto
    have step: "matchArgumentsPartial_loop (Suc i) actions w = matchArgumentsPartial_loop i actions w"
      using none by (simp add: Let_def)
    have all: "\<forall>j. k < j \<and> j \<le> Suc i \<longrightarrow>
          String_match w (concat (map getNargsPattern (take j actions))) = Inr None"
      using k(2) none by (auto simp: le_Suc_eq)
    show ?thesis
      apply (rule exI [where x = k])
      using k(1,3) all unfolding step by auto
  next
    case (Some matches)
    then have some: "String_match w ?pat = Inr (Some matches)"
      by (simp add: String_match_patterns)
    have len: "length matches = Suc (Suc i)"
      using regexp_search_length [OF Some] Suc.prems by simp
    have "matchArgumentsPartial_loop (Suc i) actions w = Inr (map length (drop 1 matches))"
      using some len by (simp add: Let_def)
    then show ?thesis
      apply -
      apply (rule exI [where x = "Suc i"])
      using some len by auto
  qed
qed

lemma matchArgumentsPartial_total:
  "\<exists>counts. matchArgumentsPartial actions w = Inr counts \<and> length counts \<le> length actions"
  using matchArgumentsPartial_loop_greedy [of "length actions" actions w]
  unfolding matchArgumentsPartial_def
  by (auto split: if_splits)

section \<open>Arity Matcher: a run of positionals\<close>

text \<open>
  Claim C5: for a run of queued positionals against a window, the matcher concatenates
  the grammars of the first \<open>k\<close> queued positionals, \<open>k\<close> from the length of the queue
  downwards; the first \<open>k\<close> whose grammar matches wins, the count of each of those \<open>k\<close>
  Actions is the length of its capture group, and the positionals beyond \<open>k\<close> stay queued
  for the next run.

  The code does not do this, in two ways.
  \<^item> The grammar is matched anywhere in the window, not at its start. For the
    positionals \<open>p1\<close>, \<open>p2\<close> and the window \<open>AOAA\<close> the grammar of both matches the
    two \<open>A\<close> after the \<open>O\<close>, so \<open>k = 2\<close> wins with the counts 1 and 1, although the
    window starts with one argument and an option; \<open>consumePositionals\<close> slices from
    the start of the window, so in \<open>x --foo y z\<close> the positional \<open>p2\<close> takes the
    declared option \<open>--foo\<close>, which never fires, and \<open>y\<close>, \<open>z\<close> are extras.
  \<^item> When \<open>k\<close> is less than the length of the queue, \<open>_.zip\<close> fills the counts up
    with \<open>undefined\<close>: the positionals beyond \<open>k\<close> stay queued, but each is also fired in
    this run, with no tokens, and the index that \<open>consumePositionals\<close> returns is \<open>NaN\<close>.
    In \<open>x --unk y\<close>, the first run fires \<open>p1\<close> with \<open>x\<close> and \<open>p2\<close> with nothing.
\<close>

theorem positionals_match_not_anchored:
  "String_match ''AOAA'' (getNargsPattern p1 @ getNargsPattern p2)
     = Inr (Some [''AA'', ''A'', ''A'']) \<and>
   matchArgumentsPartial [p1, p2] ''AOAA'' = Inr [1, 1] \<and>
   parseKnownArgs p1_p2_foo [''x'', ''--foo'', ''y'', ''z''] []
     = Inr ([(''p1'', JStr ''x''), (''p2'', JStr ''--foo'')], [Some ''y'', Some ''z'']) \<and>
   matchArgumentsPartial [p1, p2] ''AOA'' = Inr [1] \<and>
   map_sum id (\<lambda>(st', i). (map ident (positionals st'), seenActions st', namespace st', i))
     (consumePositionals (schema [p1, p2]) run_ctx 0 run_state)
     = Inr ([2], [1, 2], [(''p1'', JStr ''x''), (''p2'', JArr [])], NaN)"
  by code_simp

section \<open>What a parse can raise\<close>

text \<open>
  \<open>raised\<close> holds of the errors a parse can end with. The others are never the outcome
  of \<open>parseKnownArgs\<close>: the two "cannot happen" throws of the source, a pattern that
  \<open>new RegExp\<close> refuses, and the conflict error, whose map of conflicts is empty in
  every parse.
\<close>

fun raised :: "error \<Rightarrow> bool" where
  "raised (AmbiguousOption tok cands) = True"
| "raised (ExpectedOneArgument a) = True"
| "raised (ExpectedAtMostOneArgument a) = True"
| "raised (ExpectedAtLeastOneArgument a) = True"
| "raised (ExpectedCountArguments a n) = True"
| "raised (IgnoredExplicitArgument a e) = True"
| "raised (NotCallable a) = True"
| "raised (InvalidTypeValue a s) = True"
| "raised (InvalidChoice a v) = True"
| "raised TooFewArguments = True"
| "raised (ArgumentRequired a) = True"
| "raised (ActionCallError msg) = True"
| "raised JsTypeError = True"
| "raised (UnexpectedOptionString s) = False"
| "raised (NotAllowedWithArgument a b) = False"
| "raised LengthShouldBePositive = False"
| "raised (RegExpSyntaxError s) = False"

lemma mapE_Inl:
  "mapE f xs = Inl e \<Longrightarrow> \<exists>x \<in> set xs. f x = Inl e"
  by (induction xs) (auto split: sum.splits)

lemma getValue_raised: "getValue a s = Inl e \<Longrightarrow> raised e"
  by (auto simp: getValue_def split: option.splits)

lemma checkValue_raised: "checkValue a v = Inl e \<Longrightarrow> raised e"
  by (auto simp: checkValue_def split: option.splits if_splits)

lemma getValues_raised: "getValues a toks = Inl e \<Longrightarrow> raised e"
  unfolding getValues_def Let_def
  by (auto simp: at_def split: if_splits jsval.splits sum.splits
           dest!: mapE_Inl dest: getValue_raised checkValue_raised)

lemma takeAction_raised:
  "actionConflicts C = [] \<Longrightarrow> takeAction P C st a args os = Inl e \<Longrightarrow> raised e"
  by (auto simp: takeAction_def Let_def split: sum.splits if_splits dest: getValues_raised)

lemma takeActions_raised:
  "actionConflicts C = [] \<Longrightarrow> takeActions P C st ts = Inl e \<Longrightarrow> raised e"
proof (induction ts arbitrary: st)
  case Nil
  then show ?case by simp
next
  case (Cons t ts)
  obtain a args os where t: "t = (a, args, os)" by (cases t)
  show ?case
    using Cons by (auto simp: t split: sum.splits dest: takeAction_raised)
qed

lemma matchArgument_raised: "matchArgument a w = Inl e \<Longrightarrow> raised e"
proof -
  assume m: "matchArgument a w = Inl e"
  show ?thesis
  proof (cases "regexp_search [nargs_group a] w")
    case None
    with m show ?thesis
      by (auto simp: matchArgument_def String_match_pattern split: nargs.splits)
  next
    case (Some ms)
    then have "length ms = 2" using regexp_search_length by fastforce
    with m Some show ?thesis
      by (auto simp: matchArgument_def String_match_pattern at_def)
  qed
qed

lemma consumeOptional_while_raised:
  "consumeOptional_while P C startIndex st action optionString explicitArg actionTuples = Inl e
     \<Longrightarrow> raised e"
proof (induction P C startIndex st action optionString explicitArg actionTuples
       rule: consumeOptional_while.induct)
  case (1 P C startIndex st action optionString explicitArg actionTuples)
  show ?case
    using "1.prems" "1.IH"
    apply (subst (asm) consumeOptional_while.simps)
    apply (auto split: option.splits property.splits sum.splits if_splits simp: Let_def
                dest: matchArgument_raised)
    done
qed

lemma consumeOptional_raised:
  "actionConflicts C = [] \<Longrightarrow> map_of (optionStringIndices C) i \<noteq> None \<Longrightarrow>
     consumeOptional P C i st = Inl e \<Longrightarrow> raised e"
  unfolding consumeOptional_def
  by (auto split: option.splits sum.splits while_exit.splits if_splits prod.splits
           dest: consumeOptional_while_raised consumeOptional_while_index takeActions_raised)

lemma consumePositionals_each_raised:
  "actionConflicts C = [] \<Longrightarrow> \<forall>item \<in> set items. fst item \<noteq> None \<Longrightarrow>
     consumePositionals_each P C items i st = Inl e \<Longrightarrow> raised e"
proof (induction items arbitrary: i st)
  case Nil
  then show ?case by simp
next
  case (Cons item items)
  obtain action argCount where item: "item = (action, argCount)" by (cases item)
  show ?case
    using Cons by (auto simp: item Let_def split: sum.splits option.splits dest: takeAction_raised)
qed

lemma zip_pad_all_actions:
  "length counts \<le> length as \<Longrightarrow> \<forall>item \<in> set (zip_pad as counts). fst item \<noteq> None"
  by (induction as counts rule: zip_pad.induct) auto

lemma consumePositionals_raised:
  "actionConflicts C = [] \<Longrightarrow> consumePositionals P C s st = Inl e \<Longrightarrow> raised e"
proof -
  assume c: "actionConflicts C = []" and e: "consumePositionals P C s st = Inl e"
  obtain counts where m: "matchArgumentsPartial (positionals st) (drop s (argStringsPattern C)) = Inr counts"
    and l: "length counts \<le> length (positionals st)"
    using matchArgumentsPartial_total by blast
  show ?thesis
    using e m consumePositionals_each_raised [OF c zip_pad_all_actions [OF l]]
    by (auto simp: consumePositionals_def Let_def split: if_splits sum.splits)
qed


lemma nextOptionStringIndex_fold_key:
  "fold (\<lambda>(position, t) next.
             if position \<ge> s then
               (case next of None \<Rightarrow> Some position | Some n \<Rightarrow> Some (min n position))
             else next) osi acc = Some n
   \<Longrightarrow> n \<in> fst ` set osi \<or> acc = Some n"
  by (induction osi arbitrary: acc)
     (auto split: if_splits option.splits prod.splits simp: min_def)

lemma nextOptionStringIndex_key:
  "nextOptionStringIndex osi s = Some n \<Longrightarrow> map_of osi n \<noteq> None"
  unfolding nextOptionStringIndex_def
  by (drule nextOptionStringIndex_fold_key) (auto simp: map_of_eq_None_iff)

lemma maxOptionStringIndex_fold_key:
  "int s \<le> fold (\<lambda>(position, t) m. max m (int position)) osi acc
   \<Longrightarrow> int s \<le> acc \<or> (\<exists>k \<in> fst ` set osi. s \<le> k)"
proof (induction osi arbitrary: acc)
  case Nil
  then show ?case by simp
next
  case (Cons x osi)
  obtain k t where x: "x = (k, t)" by (cases x)
  from Cons.prems have "int s \<le> fold (\<lambda>(position, t) m. max m (int position)) osi (max acc (int k))"
    by (simp add: x)
  from Cons.IH [OF this] show ?case
    by (auto simp: x max_def split: if_splits)
qed

lemma nextOptionStringIndex_fold_Some:
  "acc \<noteq> None \<or> (\<exists>k \<in> fst ` set osi. s \<le> k) \<Longrightarrow>
   fold (\<lambda>(position, t) next.
             if position \<ge> s then
               (case next of None \<Rightarrow> Some position | Some n \<Rightarrow> Some (min n position))
             else next) osi acc \<noteq> None"
proof (induction osi arbitrary: acc)
  case Nil
  then show ?case by simp
next
  case (Cons x osi)
  obtain k t where x: "x = (k, t)" by (cases x)
  show ?case
    unfolding x fold_Cons comp_def
    apply (rule Cons.IH)
    using Cons.prems by (auto simp: x split: option.splits)
qed

lemma nextOptionStringIndex_exists:
  assumes "int s \<le> maxOptionStringIndex osi"
  shows "nextOptionStringIndex osi s \<noteq> None"
proof -
  have "int s \<le> - 1 \<or> (\<exists>k \<in> fst ` set osi. s \<le> k)"
    using assms unfolding maxOptionStringIndex_def by (rule maxOptionStringIndex_fold_key)
  then have "\<exists>k \<in> fst ` set osi. s \<le> k" by auto
  then show ?thesis
    unfolding nextOptionStringIndex_def
    by (intro nextOptionStringIndex_fold_Some disjI2)
qed

lemma consumeOptional_raised_at:
  "actionConflicts C = [] \<Longrightarrow> map_of (optionStringIndices C) i = Some t \<Longrightarrow>
     consumeOptional P C i st = Inl e \<Longrightarrow> raised e"
  using consumeOptional_raised [of C i P st e] by simp

lemma parse_step_raised:
  assumes "actionConflicts C = []"
    and "int s \<le> maxOptionStringIndex (optionStringIndices C)"
    and "parse_step P C s st = Inl e"
  shows "raised e"
proof -
  obtain n where n: "nextOptionStringIndex (optionStringIndices C) s = Some n"
    using nextOptionStringIndex_exists [OF assms(2)] by auto
  have key: "map_of (optionStringIndices C) n \<noteq> None"
    using nextOptionStringIndex_key [OF n] .
  then obtain t where t: "map_of (optionStringIndices C) n = Some t" by auto
  show ?thesis
    using assms(3) t
    unfolding parse_step_def n Let_def
    by (auto split: if_splits sum.splits prod.splits idx.splits option.splits
             simp: idx_int_def
             dest: consumePositionals_raised [OF assms(1)] consumeOptional_raised_at [OF assms(1)])
qed

lemma parse_loop_raised:
  "actionConflicts C = [] \<Longrightarrow> parse_loop P C s st = Inl e \<Longrightarrow> raised e"
proof (induction P C s st rule: parse_loop.induct)
  case (1 P C startIndex st)
  show ?case
  proof (cases "int startIndex \<le> maxOptionStringIndex (optionStringIndices C)")
    case False
    with "1.prems" show ?thesis by (simp add: parse_loop.simps)
  next
    case True
    show ?thesis
    proof (cases "parse_step P C startIndex st")
      case (Inl e')
      with True "1.prems" have "e' = e" by (simp add: parse_loop.simps)
      with Inl parse_step_raised [OF "1.prems"(1) True] show ?thesis by simp
    next
      case (Inr r)
      obtain st' i where r: "r = (st', i)" by (cases r)
      from True Inr r "1.prems" have "parse_loop P C i st' = Inl e"
        by (simp add: parse_loop.simps)
      with "1.IH" [OF True Inr [unfolded r] refl "1.prems"(1)] show ?thesis by simp
    qed
  qed
qed

lemma parseOptional_raised: "parseOptional P tok = Inl e \<Longrightarrow> raised e"
proof -
  assume e: "parseOptional P tok = Inl e"
  show ?thesis
  proof (cases "tok = [] \<or> \<not> indexOf_found (prefixChars P) (at tok 0) \<or> length tok = 1")
    case True
    with e show ?thesis
      by (auto simp: parseOptional_def split: option.splits if_splits)
  next
    case False
    then obtain c d rest where tok: "tok = c # d # rest"
      by (cases tok; cases "tl tok") auto
    with False have c: "c \<in> set (prefixChars P)"
      by (simp add: indexOf_found_def at_def)
    show ?thesis
      using e unfolding parseOptional_def getOptionTuples_candidates [OF tok c]
      by (auto split: option.splits if_splits list.splits)
  qed
qed

lemma classifyEach_raised:
  "classifyEach P n i toks acc = Inl e \<Longrightarrow> raised e"
proof (induction toks arbitrary: i acc)
  case Nil
  then show ?case by simp
next
  case (Cons tok toks)
  obtain osi parts where acc: "acc = (osi, parts)" by (cases acc)
  show ?case
    using Cons.prems Cons.IH
    by (auto simp: acc split: if_splits sum.splits option.splits dest: parseOptional_raised)
qed

lemma parseKnownArgs_raised:
  "parseKnownArgs P args ns = Inl e \<Longrightarrow> raised e"
  unfolding parseKnownArgs_def classify_def Let_def
  by (auto split: sum.splits prod.splits if_splits option.splits
           dest: classifyEach_raised
           dest!: parse_loop_raised [rotated] consumePositionals_raised [rotated])

text \<open>
  Claim C9: a parse never raises the mutually-exclusive error ("Not allowed with
  argument"): the map \<open>actionConflicts\<close> that \<open>takeAction\<close> consults is created empty at
  the start of every parse and nothing adds to it. The check itself is live: with a
  map that has an entry, \<open>takeAction\<close> does raise.
\<close>

theorem parse_never_conflicts:
  "parseKnownArgs P args ns \<noteq> Inl (NotAllowedWithArgument a b) \<and>
   map_sum id (\<lambda>st. ()) (takeAction (schema [p1, p2]) conflict_ctx conflict_state p2 [''y''] None)
     = Inl (NotAllowedWithArgument 2 1)"
proof
  show "parseKnownArgs P args ns \<noteq> Inl (NotAllowedWithArgument a b)"
    using parseKnownArgs_raised [of P args ns "NotAllowedWithArgument a b"] by auto
  show "map_sum id (\<lambda>st. ())
          (takeAction (schema [p1, p2]) conflict_ctx conflict_state p2 [''y''] None)
        = Inl (NotAllowedWithArgument 2 1)"
    by code_simp
qed

section \<open>Clustered single-dash flags\<close>

text \<open>
  The schema of the claim below: the prefix character is \<open>-\<close>, the option strings are
  \<open>-a\<close>, \<open>-b\<close>, \<open>-c\<close>, each of an option with \<open>nargs = 0\<close>, and there is no positional.
  \<open>fire_abc\<close> is \<open>takeAction\<close> on the three Actions in turn, each with no argument;
  \<open>finish\<close> is the end of \<open>_parseKnownArgs\<close> when nothing is left over.
\<close>

definition flags_abc :: "'ns parser \<Rightarrow> 'ns action \<Rightarrow> 'ns action \<Rightarrow> 'ns action \<Rightarrow> bool" where
  "flags_abc P A B Cc =
     (prefixChars P = ''-'' \<and>
      optionStringActions P = [(''-a'', A), (''-b'', B), (''-c'', Cc)] \<and>
      isOptional A \<and> isOptional B \<and> isOptional Cc \<and>
      nargs A = NargsCount 0 \<and> nargs B = NargsCount 0 \<and> nargs Cc = NargsCount 0 \<and>
      filter isPositional (parserActions P) = [])"

lemma matchArgument_zero_arity:
  "isOptional a \<Longrightarrow> nargs a = NargsCount 0 \<Longrightarrow> matchArgument a w = Inr 0"
  by (cases w) (simp_all add: matchArgument_def String_match_pattern nargs_group_def at_def)

lemma takeAction_ctx:
  "actionConflicts C = actionConflicts C' \<Longrightarrow>
     takeAction P C st a args os = takeAction P C' st a args os"
  unfolding takeAction_def Let_def by (simp split: sum.split)

lemma takeActions_ctx:
  "actionConflicts C = actionConflicts C' \<Longrightarrow> takeActions P C st ts = takeActions P C' st ts"
proof (induction ts arbitrary: st)
  case Nil
  show ?case by simp
next
  case (Cons t ts)
  obtain a args os where t: "t = (a, args, os)" by (cases t)
  show ?case
    using Cons by (simp add: t takeAction_ctx [of C C'] split: sum.splits)
qed

lemma classify_abc:
  assumes "flags_abc P A B Cc"
  shows "classify P [''-abc''] = Inr ([(0, (Some (Own A), ''-a'', Some ''bc''))], ''O'')"
    and "classify P [''-a'', ''-b'', ''-c''] =
           Inr ([(0, (Some (Own A), ''-a'', None)), (1, (Some (Own B), ''-b'', None)),
                 (2, (Some (Own Cc), ''-c'', None))], ''OOO'')"
proof -
  have pc: "prefixChars P = ''-''"
    and osa: "optionStringActions P = [(''-a'', A), (''-b'', B), (''-c'', Cc)]"
    using assms by (simp_all add: flags_abc_def)
  have "parseOptional P ''-abc'' = Inr (Some (Some (Own A), ''-a'', Some ''bc''))"
    using parseOptional_undeclared [of "''-abc''" "CHR ''-''" "CHR ''a''" "''bc''" P]
    by (simp add: pc osa candidate_def indexOf_found_def at_def starts_with_def
                  optionStringActions_get_def Object_prototype_def)
  then show "classify P [''-abc''] = Inr ([(0, (Some (Own A), ''-a'', Some ''bc''))], ''O'')"
    by (simp add: classify_def)
  have "parseOptional P ''-a'' = Inr (Some (Some (Own A), ''-a'', None))"
    "parseOptional P ''-b'' = Inr (Some (Some (Own B), ''-b'', None))"
    "parseOptional P ''-c'' = Inr (Some (Some (Own Cc), ''-c'', None))"
    by (simp_all add: parseOptional_def pc osa indexOf_found_def at_def
                      optionStringActions_get_def)
  then show "classify P [''-a'', ''-b'', ''-c''] =
           Inr ([(0, (Some (Own A), ''-a'', None)), (1, (Some (Own B), ''-b'', None)),
                 (2, (Some (Own Cc), ''-c'', None))], ''OOO'')"
    by (simp add: classify_def)
qed


definition no_conflicts :: "'ns ctx" where
  "no_conflicts = \<lparr>argStrings = [], argStringsPattern = [], optionStringIndices = [],
                   actionConflicts = []\<rparr>"

definition fire_abc ::
  "'ns parser \<Rightarrow> 'ns action \<Rightarrow> 'ns action \<Rightarrow> 'ns action \<Rightarrow> 'ns pstate \<Rightarrow> error + 'ns pstate" where
  "fire_abc P A B Cc st =
     takeActions P no_conflicts st [(A, [], ''-a''), (B, [], ''-b''), (Cc, [], ''-c'')]"

lemma slice_empty: "slice xs i i = []"
  by (simp add: slice_def)

lemma consumeOptional_while_cluster:
  assumes "flags_abc P A B Cc"
  shows "consumeOptional_while P C i st (Some (Own A)) ''-a'' (Some ''bc'') [] =
           Inr (Break [(A, [], ''-a''), (B, [], ''-b''), (Cc, [], ''-c'')] (i + 1))"
proof -
  have pc: "prefixChars P = ''-''"
    and osa: "optionStringActions P = [(''-a'', A), (''-b'', B), (''-c'', Cc)]"
    and m: "\<And>w. matchArgument A w = Inr 0" "\<And>w. matchArgument B w = Inr 0"
           "\<And>w. matchArgument Cc w = Inr 0"
    using assms by (simp_all add: flags_abc_def matchArgument_zero_arity)
  have get: "optionStringActions_get P ''-b'' = Some (Own B)"
    "optionStringActions_get P ''-c'' = Some (Own Cc)"
    by (simp_all add: optionStringActions_get_def osa)
  have 3: "consumeOptional_while P C i st (Some (Own Cc)) ''-c'' None
             [(A, [], ''-a''), (B, [], ''-b'')] =
           Inr (Break [(A, [], ''-a''), (B, [], ''-b''), (Cc, [], ''-c'')] (i + 1))"
    by (subst consumeOptional_while.simps) (simp add: m slice_empty Let_def)
  have 2: "consumeOptional_while P C i st (Some (Own B)) ''-b'' (Some ''c'') [(A, [], ''-a'')] =
           Inr (Break [(A, [], ''-a''), (B, [], ''-b''), (Cc, [], ''-c'')] (i + 1))"
    by (subst consumeOptional_while.simps)
       (simp add: m pc osa get indexOf_found_def at_def char_text_def Let_def 3)
  show ?thesis
    by (subst consumeOptional_while.simps)
       (simp add: m pc osa get indexOf_found_def at_def char_text_def Let_def 2)
qed

lemma consumeOptional_while_single:
  assumes "isOptional a" "nargs a = NargsCount 0"
  shows "consumeOptional_while P C i st (Some (Own a)) s None [] = Inr (Break [(a, [], s)] (i + 1))"
  by (subst consumeOptional_while.simps)
     (simp add: matchArgument_zero_arity [OF assms] slice_empty Let_def)


lemma consumePositionals_no_positionals:
  "positionals st = [] \<Longrightarrow> consumePositionals P C s st = Inr (st, Idx s)"
  by (simp add: consumePositionals_def matchArgumentsPartial_def)

lemma takeAction_frame:
  "takeAction P C st a args os = Inr st' \<Longrightarrow>
     extras st' = extras st \<and> positionals st' = positionals st \<and>
     seenActions st' = seenActions st @ [ident a]"
  by (auto simp: takeAction_def Let_def split: sum.splits if_splits option.splits)

lemma fire_abc_frame:
  "fire_abc P A B Cc st = Inr st' \<Longrightarrow>
     extras st' = extras st \<and> positionals st' = positionals st \<and>
     seenActions st' = seenActions st @ [ident A, ident B, ident Cc]"
  unfolding fire_abc_def
  by (auto split: sum.splits dest!: takeAction_frame)

definition finish ::
  "'ns parser \<Rightarrow> error + 'ns pstate \<Rightarrow> error + 'ns \<times> string option list" where
  "finish P r =
     (case r of
        Inl e \<Rightarrow> Inl e
      | Inr st \<Rightarrow>
          (case find (\<lambda>action. required action \<and> indexOf (seenActions st) (ident action) < 0)
                  (parserActions P) of
             Some action \<Rightarrow> Inl (ArgumentRequired (ident action))
           | None \<Rightarrow> Inr (namespace st, [])))"

lemma parse_cluster:
  assumes f: "flags_abc P A B Cc"
  shows "parseKnownArgs P [''-abc''] ns =
           finish P (fire_abc P A B Cc
             \<lparr>extras = [], seenActions = [], seenNonDefaultActions = [],
              positionals = [], namespace = ns\<rparr>)"
proof -
  let ?C = "\<lparr>argStrings = [''-abc''], argStringsPattern = ''O'',
             optionStringIndices = [(0, (Some (Own A), ''-a'', Some ''bc''))],
             actionConflicts = []\<rparr>"
  let ?st0 = "\<lparr>extras = [], seenActions = [], seenNonDefaultActions = [],
               positionals = [], namespace = ns\<rparr>"
  have nopos: "filter isPositional (parserActions P) = []"
    using f by (simp add: flags_abc_def)
  have fire: "takeActions P ?C st [(A, [], ''-a''), (B, [], ''-b''), (Cc, [], ''-c'')]
                = fire_abc P A B Cc st" for st
    unfolding fire_abc_def by (rule takeActions_ctx) (simp add: no_conflicts_def)
  have co: "consumeOptional P ?C 0 st =
              (case fire_abc P A B Cc st of Inl e \<Rightarrow> Inl e | Inr st' \<Rightarrow> Inr (st', Suc 0))" for st
    unfolding consumeOptional_def
    by (simp add: consumeOptional_while_cluster [OF f] fire del: takeActions.simps)
  have step: "parse_step P ?C 0 st = consumeOptional P ?C 0 st" for st
    by (simp add: parse_step_def nextOptionStringIndex_def Let_def idx_int_def)
  have loop1: "parse_loop P ?C (Suc 0) st = Inr (st, Suc 0)" for st
    by (subst parse_loop.simps) (simp add: maxOptionStringIndex_def)
  have loop0: "parse_loop P ?C 0 ?st0 =
                 (case fire_abc P A B Cc ?st0 of Inl e \<Rightarrow> Inl e | Inr st' \<Rightarrow> Inr (st', Suc 0))"
    by (subst parse_loop.simps)
       (simp add: maxOptionStringIndex_def step co loop1 split: sum.splits)
  show ?thesis
  proof (cases "fire_abc P A B Cc ?st0")
    case (Inl e)
    then show ?thesis
      by (simp add: parseKnownArgs_def classify_abc [OF f] nopos loop0 finish_def)
  next
    case (Inr st')
    from fire_abc_frame [OF Inr] have fr: "extras st' = []" "positionals st' = []" by simp_all
    show ?thesis
      by (simp add: parseKnownArgs_def classify_abc [OF f] nopos loop0 Inr finish_def
                    consumePositionals_no_positionals [OF fr(2)] fr idx_int_def
               split: option.splits)
  qed
qed


lemma parse_split:
  assumes f: "flags_abc P A B Cc"
  shows "parseKnownArgs P [''-a'', ''-b'', ''-c''] ns =
           finish P (fire_abc P A B Cc
             \<lparr>extras = [], seenActions = [], seenNonDefaultActions = [],
              positionals = [], namespace = ns\<rparr>)"
proof -
  define C where "C = \<lparr>argStrings = [''-a'', ''-b'', ''-c''], argStringsPattern = ''OOO'',
             optionStringIndices = [(0, (Some (Own A), ''-a'', None)), (1, (Some (Own B), ''-b'', None)),
                                    (2, (Some (Own Cc), ''-c'', None))],
             actionConflicts = []\<rparr>"
  let ?st0 = "\<lparr>extras = [], seenActions = [], seenNonDefaultActions = [],
               positionals = [], namespace = ns\<rparr>"
  have C: "argStrings C = [''-a'', ''-b'', ''-c'']" "argStringsPattern C = ''OOO''"
    "optionStringIndices C = [(0, (Some (Own A), ''-a'', None)), (1, (Some (Own B), ''-b'', None)),
                              (2, (Some (Own Cc), ''-c'', None))]"
    "actionConflicts C = []"
    by (simp_all add: C_def)
  have nopos: "filter isPositional (parserActions P) = []"
    and opt: "isOptional A" "isOptional B" "isOptional Cc"
    and zero: "nargs A = NargsCount 0" "nargs B = NargsCount 0" "nargs Cc = NargsCount 0"
    using f by (simp_all add: flags_abc_def)
  have ta: "takeAction P C st a args os = takeAction P no_conflicts st a args os" for st a args os
    by (rule takeAction_ctx) (simp add: no_conflicts_def C)
  have co0: "consumeOptional P C 0 st =
              (case takeAction P no_conflicts st A [] (Some ''-a'') of
                 Inl e \<Rightarrow> Inl e | Inr st' \<Rightarrow> Inr (st', Suc 0))" for st
    unfolding consumeOptional_def
    by (simp add: C consumeOptional_while_single [OF opt(1) zero(1)] ta split: sum.splits)
  have co1: "consumeOptional P C (Suc 0) st =
              (case takeAction P no_conflicts st B [] (Some ''-b'') of
                 Inl e \<Rightarrow> Inl e | Inr st' \<Rightarrow> Inr (st', 2))" for st
    unfolding consumeOptional_def
    by (simp add: C consumeOptional_while_single [OF opt(2) zero(2)] ta split: sum.splits)
  have co2: "consumeOptional P C 2 st =
              (case takeAction P no_conflicts st Cc [] (Some ''-c'') of
                 Inl e \<Rightarrow> Inl e | Inr st' \<Rightarrow> Inr (st', 3))" for st
    unfolding consumeOptional_def
    by (simp add: C consumeOptional_while_single [OF opt(3) zero(3)] ta split: sum.splits)
  have mx: "maxOptionStringIndex (optionStringIndices C) = 2"
    by (simp add: C maxOptionStringIndex_def)
  have step0: "parse_step P C 0 st = consumeOptional P C 0 st" for st
    by (simp add: C parse_step_def nextOptionStringIndex_def Let_def idx_int_def)
  have step1: "parse_step P C (Suc 0) st = consumeOptional P C (Suc 0) st" for st
    by (simp add: C parse_step_def nextOptionStringIndex_def Let_def idx_int_def)
  have step2: "parse_step P C 2 st = consumeOptional P C 2 st" for st
    by (simp add: C parse_step_def nextOptionStringIndex_def Let_def idx_int_def)
  have loop3: "parse_loop P C 3 st = Inr (st, 3)" for st
    by (subst parse_loop.simps) (simp add: mx)
  have loop2: "parse_loop P C 2 st =
                 (case takeAction P no_conflicts st Cc [] (Some ''-c'') of
                    Inl e \<Rightarrow> Inl e | Inr st' \<Rightarrow> Inr (st', 3))" for st
    by (subst parse_loop.simps) (simp add: mx step2 co2 loop3 split: sum.splits)
  have loop1: "parse_loop P C (Suc 0) st =
                 (case takeAction P no_conflicts st B [] (Some ''-b'') of
                    Inl e \<Rightarrow> Inl e
                  | Inr st' \<Rightarrow>
                     (case takeAction P no_conflicts st' Cc [] (Some ''-c'') of
                        Inl e \<Rightarrow> Inl e | Inr st'' \<Rightarrow> Inr (st'', 3)))" for st
    by (subst parse_loop.simps) (simp add: mx step1 co1 loop2 split: sum.splits)
  have loop0: "parse_loop P C 0 st =
                 (case fire_abc P A B Cc st of
                    Inl e \<Rightarrow> Inl e | Inr st' \<Rightarrow> Inr (st', 3))" for st
    by (subst parse_loop.simps)
       (simp add: mx step0 co0 loop1 fire_abc_def split: sum.splits)
  have cl: "classify P [''-a'', ''-b'', ''-c''] =
              Inr (optionStringIndices C, argStringsPattern C)"
    by (simp add: classify_abc [OF f] C)
  have Ceq: "\<lparr>argStrings = [''-a'', ''-b'', ''-c''], argStringsPattern = argStringsPattern C,
             optionStringIndices = optionStringIndices C, actionConflicts = []\<rparr> = C"
    by (simp add: C_def)
  show ?thesis
  proof (cases "fire_abc P A B Cc ?st0")
    case (Inl e)
    then show ?thesis
      by (simp add: parseKnownArgs_def cl Ceq nopos loop0 finish_def)
  next
    case (Inr st')
    from fire_abc_frame [OF Inr] have fr: "extras st' = []" "positionals st' = []" by simp_all
    show ?thesis
      by (simp add: parseKnownArgs_def cl Ceq nopos loop0 Inr finish_def
                    consumePositionals_no_positionals [OF fr(2)] fr idx_int_def
               split: option.splits)
  qed
qed


lemma indexOf_negative: "indexOf xs x < 0 \<longleftrightarrow> x \<notin> set xs"
proof (induction xs)
  case Nil
  show ?case by simp
next
  case (Cons y ys)
  have "indexOf ys x \<ge> - 1" for ys :: "'a list"
    by (induction ys) (auto simp: Let_def)
  with Cons show ?case by (auto simp: Let_def)
qed

lemma getValues_zero_arity:
  "nargs a = NargsCount 0 \<Longrightarrow> getValues a [] = Inr (JArr [])"
  by (simp add: getValues_def nargs_falsy_def)

lemma takeAction_zero_arity:
  assumes "nargs a = NargsCount 0" and "SUPPRESS P \<noteq> JArr []"
    and "call a (namespace st) (JArr []) os = Inr ns'"
  shows "\<exists>st'. takeAction P no_conflicts st a [] os = Inr st' \<and> namespace st' = ns' \<and>
               seenActions st' = seenActions st @ [ident a]"
  using assms
  by (auto simp: takeAction_def Let_def getValues_zero_arity no_conflicts_def)

text \<open>
  Claim C7: against a schema of the zero-arity flags \<open>-a\<close>, \<open>-b\<close>, \<open>-c\<close>, parsing \<open>-abc\<close>
  gives the result and the extras of parsing \<open>-a\<close>, \<open>-b\<close>, \<open>-c\<close>: all three Actions fire
  and no token lands in extras. The first conjunct is the equality, whatever the
  Actions do; the second is the outcome when each \<open>action.call\<close> returns and every
  required Action is one of the three: the namespace after the three calls in order,
  each with the empty list of values, and no extras.
\<close>

theorem cluster_equals_split:
  assumes "flags_abc P A B Cc"
  shows "parseKnownArgs P [''-abc''] ns = parseKnownArgs P [''-a'', ''-b'', ''-c''] ns \<and>
         (SUPPRESS P \<noteq> JArr [] \<and>
          call A ns (JArr []) (Some ''-a'') = Inr ns1 \<and>
          call B ns1 (JArr []) (Some ''-b'') = Inr ns2 \<and>
          call Cc ns2 (JArr []) (Some ''-c'') = Inr ns3 \<and>
          (\<forall>a \<in> set (parserActions P). required a \<longrightarrow> ident a \<in> {ident A, ident B, ident Cc})
          \<longrightarrow> parseKnownArgs P [''-abc''] ns = Inr (ns3, []) \<and>
              parseKnownArgs P [''-a'', ''-b'', ''-c''] ns = Inr (ns3, []))"
proof (intro conjI impI)
  let ?st0 = "\<lparr>extras = [], seenActions = [], seenNonDefaultActions = [],
               positionals = [], namespace = ns\<rparr>"
  show eq: "parseKnownArgs P [''-abc''] ns = parseKnownArgs P [''-a'', ''-b'', ''-c''] ns"
    by (simp add: parse_cluster [OF assms] parse_split [OF assms])
  assume h: "SUPPRESS P \<noteq> JArr [] \<and>
          call A ns (JArr []) (Some ''-a'') = Inr ns1 \<and>
          call B ns1 (JArr []) (Some ''-b'') = Inr ns2 \<and>
          call Cc ns2 (JArr []) (Some ''-c'') = Inr ns3 \<and>
          (\<forall>a \<in> set (parserActions P). required a \<longrightarrow> ident a \<in> {ident A, ident B, ident Cc})"
  have zero: "nargs A = NargsCount 0" "nargs B = NargsCount 0" "nargs Cc = NargsCount 0"
    using assms by (simp_all add: flags_abc_def)
  from takeAction_zero_arity [OF zero(1), of P ?st0 "Some ''-a''" ns1] h
  obtain s1 where s1: "takeAction P no_conflicts ?st0 A [] (Some ''-a'') = Inr s1"
    "namespace s1 = ns1" "seenActions s1 = [ident A]" by auto
  from takeAction_zero_arity [OF zero(2), of P s1 "Some ''-b''" ns2] h s1
  obtain s2 where s2: "takeAction P no_conflicts s1 B [] (Some ''-b'') = Inr s2"
    "namespace s2 = ns2" "seenActions s2 = [ident A, ident B]" by auto
  from takeAction_zero_arity [OF zero(3), of P s2 "Some ''-c''" ns3] h s2
  obtain s3 where s3: "takeAction P no_conflicts s2 Cc [] (Some ''-c'') = Inr s3"
    "namespace s3 = ns3" "seenActions s3 = [ident A, ident B, ident Cc]" by auto
  have fire: "fire_abc P A B Cc ?st0 = Inr s3"
    by (simp add: fire_abc_def s1 s2 s3)
  have "find (\<lambda>action. required action \<and> indexOf (seenActions s3) (ident action) < 0)
          (parserActions P) = None"
    using h by (auto simp: find_None_iff indexOf_negative s3)
  then show "parseKnownArgs P [''-abc''] ns = Inr (ns3, [])"
    by (simp add: parse_cluster [OF assms] fire finish_def s3)
  then show "parseKnownArgs P [''-a'', ''-b'', ''-c''] ns = Inr (ns3, [])"
    using eq by simp
qed

theorem cluster_equals_split_witness:
  "flags_abc abc_parser (store_action 1 [''-a''] ''a'' (NargsCount 0))
     (store_action 2 [''-b''] ''b'' (NargsCount 0)) (store_action 3 [''-c''] ''c'' (NargsCount 0)) \<and>
   parseKnownArgs abc_parser [''-abc''] [] = parseKnownArgs abc_parser [''-a'', ''-b'', ''-c''] [] \<and>
   parseKnownArgs abc_parser [''-abc''] []
     = Inr ([(''a'', JArr []), (''b'', JArr []), (''c'', JArr [])], []) \<and>
   parseKnownArgs abc_parser [''-a'', ''-b'', ''-c''] []
     = Inr ([(''a'', JArr []), (''b'', JArr []), (''c'', JArr [])], [])"
proof -
  let ?A = "store_action 1 [''-a''] ''a'' (NargsCount 0)"
  let ?B = "store_action 2 [''-b''] ''b'' (NargsCount 0)"
  let ?C = "store_action 3 [''-c''] ''c'' (NargsCount 0)"
  have f: "flags_abc abc_parser ?A ?B ?C"
    by (simp add: flags_abc_def abc_parser_def schema_def store_action_def isOptional_def
                  isPositional_def)
  have h: "SUPPRESS abc_parser \<noteq> JArr [] \<and>
          call ?A [] (JArr []) (Some ''-a'') = Inr [(''a'', JArr [])] \<and>
          call ?B [(''a'', JArr [])] (JArr []) (Some ''-b'') = Inr [(''a'', JArr []), (''b'', JArr [])] \<and>
          call ?C [(''a'', JArr []), (''b'', JArr [])] (JArr []) (Some ''-c'')
            = Inr [(''a'', JArr []), (''b'', JArr []), (''c'', JArr [])] \<and>
          (\<forall>a \<in> set (parserActions abc_parser). required a \<longrightarrow> ident a \<in> {ident ?A, ident ?B, ident ?C})"
    by (simp add: abc_parser_def schema_def store_action_def)
  from cluster_equals_split [OF f, of "[]" "[(''a'', JArr [])]" "[(''a'', JArr []), (''b'', JArr [])]"
         "[(''a'', JArr []), (''b'', JArr []), (''c'', JArr [])]"] h f
  show ?thesis by blast
qed

section \<open>Tokens that match nothing\<close>

text \<open>
  Claim C8: the parse never raises for an option-shaped token that matched no Action, nor
  for gap tokens that no positional could consume; such tokens are appended to the extras
  in input order and the parse goes on past them; only the fatal conditions raise.

  The code does not do this, in two ways.
  \<^item> With the positionals \<open>p1\<close>, \<open>p2\<close>, \<open>p3\<close> declared, the input
    \<open>--u1 x --u2 y --u3 z\<close> has three option-shaped tokens that match nothing. The
    extras are \<open>--u1\<close>, \<open>--u1\<close>, \<open>x\<close>, \<open>--u2\<close>, \<open>--u1\<close>, \<open>x\<close>, \<open>--u2\<close>, \<open>y\<close>, \<open>--u3\<close>:
    tokens are repeated, and tokens that a positional consumed (\<open>x\<close>, \<open>y\<close>) are among
    them. A run of positionals that matches fewer Actions than are queued returns the
    index \<open>NaN\<close> (\<open>_.zip\<close> fills the counts up with \<open>undefined\<close>), and
    \<open>argStrings.slice(NaN, nextOptionStringIndex)\<close> starts at the first token.
  \<^item> With the prefix character \<open>t\<close>, the token \<open>toString\<close> is option-shaped and matches
    no Action, but the lookup \<open>_optionStringActions['toString']\<close> finds the function
    that every object inherits; the parse ends in the runtime's TypeError.
\<close>

theorem extras_repeated_out_of_order:
  "parseKnownArgs (schema [p1, p2, p3]) [''--u1'', ''x'', ''--u2'', ''y'', ''--u3'', ''z''] []
     = Inr ([(''p1'', JStr ''x''), (''p2'', JArr []), (''p3'', JArr []),
             (''p2'', JStr ''y''), (''p3'', JArr []), (''p3'', JStr ''z'')],
            [Some ''--u1'', Some ''--u1'', Some ''x'', Some ''--u2'',
             Some ''--u1'', Some ''x'', Some ''--u2'', Some ''y'', Some ''--u3'']) \<and>
   map_sum id (map_option (\<lambda>(a, s, e). (map_option (map_property ident) a, s, e)))
     (parseOptional t_prefix ''toString'') = Inr (Some (Some Inherited, ''toString'', None)) \<and>
   parseKnownArgs t_prefix [''toString''] [] = Inl JsTypeError"
  by code_simp

end
